theory Spec2Isabelle
  imports Main "HOL-Library.Word"
begin

section \<open>Data model\<close>

text \<open>
  A cell of a pandas table: a string, a number, or the missing value \<open>NaN\<close> that
  pandas puts where a record has no value for a column (an empty CSV cell, a field a
  record of the remote table does not carry). The numbers are the integers of 32 bits:
  pandas holds and compares these exactly whether the column is \<open>int64\<close>, \<open>float64\<close>
  or \<open>object\<close>.
\<close>

datatype cell = NaN | Str string | Num "32 word"

definition is_number :: "cell \<Rightarrow> bool" where
  "is_number x = (case x of Num _ \<Rightarrow> True | _ \<Rightarrow> False)"

text \<open>
  A Python \<open>dict\<close> from field names to cells, in insertion order. Assigning to a key
  that is present replaces the value and keeps the position.
\<close>

type_synonym dict = "(string \<times> cell) list"

fun dict_set :: "string \<Rightarrow> cell \<Rightarrow> dict \<Rightarrow> dict" where
  "dict_set k v [] = [(k, v)]"
| "dict_set k v ((k', v') # d) = (if k' = k then (k, v) # d else (k', v') # dict_set k v d)"

definition keys :: "dict \<Rightarrow> string set" where
  "keys d = fst ` set d"

definition dict_get :: "dict \<Rightarrow> string \<Rightarrow> cell option" where
  "dict_get d k = map_of d k"

text \<open>
  A \<open>pd.DataFrame\<close>: the column labels and the rows. A row gives the cell of every
  column; the model reads a row only at a label it has checked to be a column
  (\<open>KeyError\<close> otherwise).
\<close>

type_synonym row = "string \<Rightarrow> cell"

record dataframe =
  columns :: "string list"
  rows :: "row list"

text \<open>
  The exceptions the program can end with: \<open>KeyError\<close> and \<open>TypeError\<close> of Python,
  \<open>InvalidJSONError\<close> and \<open>JSONDecodeError\<close> of \<open>requests.exceptions\<close>.
\<close>

datatype exn = KeyError | TypeError | InvalidJSONError | JSONDecodeError

section \<open>Configuration\<close>

text \<open>
  \<open>config = {**dotenv_values(".env.shared"), **dotenv_values(".env"), **os.environ}\<close>:
  a dict display with three unpackings, left to right, a later one replacing the value
  of a key an earlier one gave. The source has no layer before \<open>.env.shared\<close>.
\<close>

definition config :: "('k \<rightharpoonup> 'v) \<Rightarrow> ('k \<rightharpoonup> 'v) \<Rightarrow> ('k \<rightharpoonup> 'v) \<Rightarrow> ('k \<rightharpoonup> 'v)" where
  "config env_shared env_secret os_environ = (env_shared ++ env_secret) ++ os_environ"

section \<open>Reading the remote table\<close>

text \<open>
  One record of a page of the remote API: \<open>record.get("id")\<close> and
  \<open>record.get("fields", {})\<close>.
\<close>

record airtable_record =
  rec_id :: cell
  rec_fields :: dict

text \<open>
  The JSON body of one page: \<open>response_data.get("records", [])\<close> and
  \<open>response_data.get("offset")\<close>, either of which may be absent.
\<close>

record response =
  resp_records :: "airtable_record list option"
  resp_offset :: "string option"

definition get_records :: "response \<Rightarrow> airtable_record list" where
  "get_records r = (case resp_records r of None \<Rightarrow> [] | Some rs \<Rightarrow> rs)"

text \<open>Python truth of the continuation token: \<open>None\<close> and \<open>""\<close> are falsy.\<close>

definition truthy :: "string option \<Rightarrow> bool" where
  "truthy offset = (case offset of None \<Rightarrow> False | Some s \<Rightarrow> s \<noteq> [])"

text \<open>
  The \<open>while True\<close> loop of \<open>get_airtable_data\<close>. The answers of the server are the
  sequence \<open>pages\<close>: the \<open>i\<close>-th \<open>requests.get\<close> of the loop receives \<open>pages i\<close>.
  The loop has no bound, so it is a partial function: \<open>None\<close> is the loop that never
  leaves.
\<close>

partial_function (option) fetch_loop ::
  "(nat \<Rightarrow> response) \<Rightarrow> nat \<Rightarrow> airtable_record list \<Rightarrow> airtable_record list option" where
  "fetch_loop pages i all_records =
     (if truthy (resp_offset (pages i))
      then fetch_loop pages (Suc i) (all_records @ get_records (pages i))
      else Some (all_records @ get_records (pages i)))"

declare fetch_loop.simps [code]

text \<open>
  \<open>record_data = record.get("fields", {}); record_data["airtable_record_id"] = record.get("id")\<close>
\<close>

definition record_data :: "airtable_record \<Rightarrow> dict" where
  "record_data r = dict_set ''airtable_record_id'' (rec_id r) (rec_fields r)"

text \<open>
  \<open>pd.DataFrame(data)\<close> for a list of dicts: the columns are the keys in order of first
  appearance, one row per dict, \<open>NaN\<close> where a dict has no value for a column.
\<close>

definition row_of_dict :: "dict \<Rightarrow> row" where
  "row_of_dict d = (\<lambda>c. case map_of d c of None \<Rightarrow> NaN | Some v \<Rightarrow> v)"

definition DataFrame :: "dict list \<Rightarrow> dataframe" where
  "DataFrame data = \<lparr>columns = rev (remdups (rev (concat (map (map fst) data)))),
                     rows = map row_of_dict data\<rparr>"

section \<open>The outside world\<close>

text \<open>
  The \<open>fields\<close> of an update: the dict that \<open>to_dict()\<close> gives for one row, or, where
  \<open>.loc\<close> found several rows of one label, the nested dict
  \<open>{column: {label: value}}\<close> that \<open>to_dict()\<close> gives for a frame.
\<close>

datatype fields = Fields dict | Fields_by_label cell dict

text \<open>
  The write requests of the program. \<open>Patch rid f\<close> is
  \<open>requests.patch(f"{airtable_base_url}/{rid}", headers=headers, json={"fields": f})\<close>
  and \<open>Post d\<close> is
  \<open>requests.post(airtable_base_url, headers=headers, json={"records": [{"fields": d}]})\<close>.
\<close>

datatype request = Patch cell fields | Post dict

text \<open>
  The lines the program prints, one constructor per \<open>print\<close> of the source, with the
  values the line is formatted from. \<open>Printed_head cols cells\<close> is
  \<open>print(deleted_records.head())\<close>: the column labels and the cells of the rows shown.
  \<open>Response_body\<close> is \<open>print(response.json())\<close>, whose content is the server's.
\<close>

datatype message =
    Step_1 | Step_2 | Step_3 | Blank | Completed
  | Found_in_Airtable nat
  | Found_in_export nat
  | Synchronizing_different
  | Found_with_differences nat
  | Error_updating cell nat
  | Successfully_updated cell
  | Synchronizing_missing
  | Found_missing_in_Airtable nat
  | Creating_new_record dict
  | Error_creating nat
  | Response_body
  | Successfully_created
  | Synchronizing_deleted
  | Found_missing_in_PCRS nat
  | Printed_head "string list" "cell list list"

text \<open>
  The state the program acts on: the write requests sent so far and the lines printed
  so far, both in order.
\<close>

record world =
  sent :: "request list"
  out :: "message list"

definition print :: "message \<Rightarrow> world \<Rightarrow> world" where
  "print m w = w\<lparr>out := out w @ [m]\<rparr>"

text \<open>
  The remote store answers a write request with a status code and a body, which is
  JSON or not; the answer may depend on every request it has received before.
\<close>

record answer =
  code :: nat
  body_is_json :: bool

type_synonym remote = "request list \<Rightarrow> request \<Rightarrow> answer"

text \<open>
  \<open>requests\<close> encodes the \<open>json=\<close> argument with \<open>allow_nan=False\<close> before anything
  leaves: a missing value in it is an \<open>InvalidJSONError\<close>.
\<close>

definition has_nan :: "dict \<Rightarrow> bool" where
  "has_nan d = (NaN \<in> snd ` set d)"

fun json_dumps :: "fields \<Rightarrow> exn option" where
  "json_dumps (Fields d) = (if has_nan d then Some InvalidJSONError else None)"
| "json_dumps (Fields_by_label l d) =
     (if l = NaN \<or> has_nan d then Some InvalidJSONError else None)"

text \<open>A request that has left: the store has it, and answers.\<close>

definition send :: "remote \<Rightarrow> request \<Rightarrow> world \<Rightarrow> answer \<times> world" where
  "send remote rq w = (remote (sent w) rq, w\<lparr>sent := sent w @ [rq]\<rparr>)"

text \<open>\<open>requests.patch(record_url, headers=headers, json={"fields": f})\<close>\<close>

definition requests_patch :: "remote \<Rightarrow> cell \<Rightarrow> fields \<Rightarrow> world \<Rightarrow> exn + answer \<times> world" where
  "requests_patch remote rid f w =
     (case json_dumps f of
        Some e \<Rightarrow> Inl e
      | None \<Rightarrow> Inr (send remote (Patch rid f) w))"

text \<open>
  \<open>requests.post(record_url, headers=headers, json={"records": [{"fields": data}]})\<close>.
  \<open>numpy_pivot\<close> says that the pivot value put into \<open>data\<close> is a \<open>numpy.int64\<close>,
  which the encoder refuses with a \<open>TypeError\<close>.
\<close>

definition requests_post :: "remote \<Rightarrow> bool \<Rightarrow> dict \<Rightarrow> world \<Rightarrow> exn + answer \<times> world" where
  "requests_post remote numpy_pivot data w =
     (if numpy_pivot then Inl TypeError
      else case json_dumps (Fields data) of
             Some e \<Rightarrow> Inl e
           | None \<Rightarrow> Inr (send remote (Post data) w))"

section \<open>Fetching the two tables\<close>

text \<open>
  \<open>get_airtable_data\<close>: the loop, the line with the number of records, the frame. The
  result is \<open>None\<close> when the loop never leaves.
\<close>

definition get_airtable_data :: "(nat \<Rightarrow> response) \<Rightarrow> world \<Rightarrow> (dataframe \<times> world) option" where
  "get_airtable_data pages w =
     (case fetch_loop pages 0 [] of
        None \<Rightarrow> None
      | Some all_records \<Rightarrow>
          Some (DataFrame (map record_data all_records),
                print (Found_in_Airtable (length all_records)) w))"

text \<open>
  The answer to the download of the export: the status code, and the frame that
  \<open>pd.read_csv\<close> makes of the body.
\<close>

record csv_response =
  status_code :: nat
  read_csv :: dataframe

text \<open>
  What \<open>get_csv_export_data\<close> returns: a frame, or the string
  \<open>f"Error: Unable to download CSV file, status code {response.status_code}"\<close>.
\<close>

datatype pyobj = Frame dataframe | Error_str nat

definition get_csv_export_data :: "csv_response \<Rightarrow> world \<Rightarrow> pyobj \<times> world" where
  "get_csv_export_data response w =
     (if status_code response \<noteq> 200 then (Error_str (status_code response), w)
      else (Frame (read_csv response),
            print (Found_in_export (length (rows (read_csv response)))) w))"

section \<open>Table operations\<close>

text \<open>
  \<open>df[c]\<close> for a frame: the column, or \<open>KeyError\<close>. (Where \<open>df\<close> is the string that
  \<open>get_csv_export_data\<close> returned, \<open>df[c]\<close> is a \<open>TypeError\<close>: a \<open>str\<close> is indexed by
  integers only. The passes below say so where they index the export.)
\<close>

definition getitem :: "dataframe \<Rightarrow> string \<Rightarrow> exn + cell list" where
  "getitem df c = (if c \<in> set (columns df) then Inr (map (\<lambda>r. r c) (rows df)) else Inl KeyError)"

text \<open>\<open>df[df[c].isin(values)]\<close> and \<open>df[~df[c].isin(values)]\<close>.\<close>

definition keep_isin :: "string \<Rightarrow> cell list \<Rightarrow> dataframe \<Rightarrow> dataframe" where
  "keep_isin c values df = df\<lparr>rows := filter (\<lambda>r. r c \<in> set values) (rows df)\<rparr>"

definition drop_isin :: "string \<Rightarrow> cell list \<Rightarrow> dataframe \<Rightarrow> dataframe" where
  "drop_isin c values df = df\<lparr>rows := filter (\<lambda>r. r c \<notin> set values) (rows df)\<rparr>"

text \<open>
  A frame after \<open>set_index(c)\<close>: the column \<open>c\<close> has left the columns and labels the
  rows.
\<close>

record indexed =
  icolumns :: "string list"
  irows :: "(cell \<times> row) list"

definition set_index :: "string \<Rightarrow> dataframe \<Rightarrow> indexed" where
  "set_index c df = \<lparr>icolumns = removeAll c (columns df), irows = map (\<lambda>r. (r c, r)) (rows df)\<rparr>"

text \<open>
  \<open>a.align(p, join="inner", axis=0)\<close>: both frames on the labels they share, in the
  order of \<open>a\<close>, a row of \<open>a\<close> facing the row of \<open>p\<close> with its label. A label that
  occurs several times in a frame is outside the program's contract (the pivot values
  of a table are unique); pandas then pairs a row with every row of its label.
\<close>

definition join_rows :: "indexed \<Rightarrow> indexed \<Rightarrow> (cell \<times> row \<times> row) list" where
  "join_rows a p =
     concat (map (\<lambda>(l, ra). map (\<lambda>(l', rp). (l, ra, rp))
                         (filter (\<lambda>(l', rp). l' = l) (irows p))) (irows a))"

definition align_inner :: "indexed \<Rightarrow> indexed \<Rightarrow> indexed \<times> indexed" where
  "align_inner a p =
     (a\<lparr>irows := map (\<lambda>(l, ra, rp). (l, ra)) (join_rows a p)\<rparr>,
      p\<lparr>irows := map (\<lambda>(l, ra, rp). (l, rp)) (join_rows a p)\<rparr>)"

text \<open>
  Elementwise \<open>eq\<close> of pandas: a missing value is equal to nothing, not even to a
  missing value.
\<close>

definition cell_eq :: "cell \<Rightarrow> cell \<Rightarrow> bool" where
  "cell_eq x y = (x \<noteq> NaN \<and> y \<noteq> NaN \<and> x = y)"

text \<open>\<open>a[cols].eq(p[cols]).all(axis=1)\<close> for one row of each frame.\<close>

definition all_eq :: "string list \<Rightarrow> row \<Rightarrow> row \<Rightarrow> bool" where
  "all_eq cols ra rp = list_all (\<lambda>c. cell_eq (ra c) (rp c)) cols"

text \<open>\<open>row[cols].to_dict()\<close>: a label listed twice is one key.\<close>

definition to_dict :: "string list \<Rightarrow> row \<Rightarrow> dict" where
  "to_dict cols r = fold (\<lambda>c d. dict_set c (r c) d) cols []"

text \<open>
  \<open>p.loc[index, cols]\<close>: \<open>KeyError\<close> without a row labelled \<open>index\<close>; the row, when
  there is one; a frame of the rows, when there are several. \<open>to_dict()\<close> of such a
  frame keeps, for every column, the value of the last of them.
\<close>

datatype located = One_row row | Several_rows row

definition loc :: "indexed \<Rightarrow> cell \<Rightarrow> exn + located" where
  "loc p index =
     (case filter (\<lambda>(l, r). l = index) (irows p) of
        [] \<Rightarrow> Inl KeyError
      | [lr] \<Rightarrow> Inr (One_row (snd lr))
      | lr # others \<Rightarrow> Inr (Several_rows (snd (last others))))"

text \<open>\<open>pcrs_df.loc[index, COLUMNS_TO_CHECK].to_dict()\<close>\<close>

definition updated_fields :: "string list \<Rightarrow> cell \<Rightarrow> located \<Rightarrow> fields" where
  "updated_fields cols index found =
     (case found of
        One_row r \<Rightarrow> Fields (to_dict cols r)
      | Several_rows r \<Rightarrow> Fields_by_label index (to_dict cols r))"

text \<open>
  The rows that \<open>iterrows()\<close> yields are of dtype \<open>int64\<close>, and their cells
  \<open>numpy.int64\<close>, when every column of the frame is: every cell a number. With a
  missing value in the frame they are floats, with a string Python objects.
\<close>

definition int64_frame :: "dataframe \<Rightarrow> bool" where
  "int64_frame df = list_all (\<lambda>r. list_all (\<lambda>c. is_number (r c)) (columns df)) (rows df)"

section \<open>The three passes\<close>

text \<open>
  A pass returns the exception that ended it, if one did, and the world it leaves.
  \<open>PIVOT_COLUMN\<close> and \<open>COLUMNS_TO_CHECK\<close> are the module's globals of these names.
\<close>

type_synonym outcome = "exn option \<times> world"

subsection \<open>synchronize_different_records\<close>

text \<open>
  The body of the loop over \<open>different_records.iterrows()\<close>, for one \<open>(index, row)\<close>:
  the record identifier, the fields of the export's row, the request, the line that
  tells how it went.
\<close>

definition update_record ::
  "remote \<Rightarrow> string list \<Rightarrow> indexed \<Rightarrow> indexed \<Rightarrow> cell \<times> row \<Rightarrow> world \<Rightarrow> outcome" where
  "update_record remote COLUMNS_TO_CHECK airtable_df pcrs_df ir w =
     (if ''airtable_record_id'' \<notin> set (icolumns airtable_df) then (Some KeyError, w)
      else
        let airtable_record_id = snd ir ''airtable_record_id'' in
        (case loc pcrs_df (fst ir) of
          Inl e \<Rightarrow> (Some e, w)
        | Inr found \<Rightarrow>
            let updated_data = updated_fields COLUMNS_TO_CHECK (fst ir) found in
            (case requests_patch remote airtable_record_id updated_data w of
               Inl e \<Rightarrow> (Some e, w)
             | Inr (response, w') \<Rightarrow>
                 (None, print (if code response \<noteq> 200
                               then Error_updating airtable_record_id (code response)
                               else Successfully_updated airtable_record_id) w'))))"

fun update_records ::
  "remote \<Rightarrow> string list \<Rightarrow> indexed \<Rightarrow> indexed \<Rightarrow> (cell \<times> row) list \<Rightarrow> world \<Rightarrow> outcome" where
  "update_records remote cols a p [] w = (None, w)"
| "update_records remote cols a p (ir # rest) w =
     (case update_record remote cols a p ir w of
        (Some e, w') \<Rightarrow> (Some e, w')
      | (None, w') \<Rightarrow> update_records remote cols a p rest w')"

text \<open>
  \<open>airtable_df[~airtable_df[cols].eq(pcrs_df[cols]).all(axis=1)]\<close> on the aligned
  frames, whose rows face each other.
\<close>

definition different_records :: "string list \<Rightarrow> indexed \<Rightarrow> indexed \<Rightarrow> (cell \<times> row) list" where
  "different_records cols a p =
     map fst (filter (\<lambda>(ia, ip). \<not> all_eq cols (snd ia) (snd ip)) (zip (irows a) (irows p)))"

text \<open>
  The lines from \<open>common_ids = \<dots>\<close> to \<open>align\<close>: the remote rows whose pivot value the
  export has, the export rows whose pivot value these have, both indexed by the pivot
  column and aligned. The two pivot columns exist when this is reached.
\<close>

definition common_records :: "string \<Rightarrow> dataframe \<Rightarrow> dataframe \<Rightarrow> indexed \<times> indexed" where
  "common_records PIVOT_COLUMN airtable_df pcrs_df =
     (let airtable_df = keep_isin PIVOT_COLUMN (map (\<lambda>r. r PIVOT_COLUMN) (rows pcrs_df)) airtable_df;
          pcrs_df = keep_isin PIVOT_COLUMN (map (\<lambda>r. r PIVOT_COLUMN) (rows airtable_df)) pcrs_df
      in align_inner (set_index PIVOT_COLUMN airtable_df) (set_index PIVOT_COLUMN pcrs_df))"

definition synchronize_different_records ::
  "remote \<Rightarrow> string \<Rightarrow> string list \<Rightarrow> dataframe \<Rightarrow> pyobj \<Rightarrow> world \<Rightarrow> outcome" where
  "synchronize_different_records remote PIVOT_COLUMN COLUMNS_TO_CHECK airtable_df pcrs_obj w0 =
     (let w1 = print Synchronizing_different w0 in
      case getitem airtable_df PIVOT_COLUMN of
        Inl e \<Rightarrow> (Some e, w1)
      | Inr _ \<Rightarrow>
      (case pcrs_obj of
        Error_str _ \<Rightarrow> (Some TypeError, w1)
      | Frame pcrs_df \<Rightarrow>
      (case getitem pcrs_df PIVOT_COLUMN of
        Inl e \<Rightarrow> (Some e, w1)
      | Inr _ \<Rightarrow>
        let (airtable_df, pcrs_df) = common_records PIVOT_COLUMN airtable_df pcrs_df
        in
          if \<not> set COLUMNS_TO_CHECK \<subseteq> set (icolumns airtable_df) then (Some KeyError, w1)
          else if \<not> set COLUMNS_TO_CHECK \<subseteq> set (icolumns pcrs_df) then (Some KeyError, w1)
          else
            let different = different_records COLUMNS_TO_CHECK airtable_df pcrs_df;
                w2 = print (Found_with_differences (length different)) w1
            in update_records remote COLUMNS_TO_CHECK airtable_df pcrs_df different w2)))"

subsection \<open>synchronize_missing_records\<close>

text \<open>
  \<open>data = row[COLUMNS_TO_CHECK].to_dict(); data[PIVOT_COLUMN] = row[PIVOT_COLUMN]\<close>
\<close>

definition create_data :: "string \<Rightarrow> string list \<Rightarrow> row \<Rightarrow> dict" where
  "create_data PIVOT_COLUMN COLUMNS_TO_CHECK r =
     dict_set PIVOT_COLUMN (r PIVOT_COLUMN) (to_dict COLUMNS_TO_CHECK r)"

text \<open>
  The body of the loop over \<open>missing_records.iterrows()\<close>, for one row. After a
  refused request the body of the answer is printed with \<open>print(response.json())\<close>,
  which raises when the body is not JSON.
\<close>

definition create_record ::
  "remote \<Rightarrow> string \<Rightarrow> string list \<Rightarrow> string list \<Rightarrow> bool \<Rightarrow> row \<Rightarrow> world \<Rightarrow> outcome" where
  "create_record remote PIVOT_COLUMN COLUMNS_TO_CHECK cols numpy_row r w =
     (if \<not> set COLUMNS_TO_CHECK \<subseteq> set cols then (Some KeyError, w)
      else if PIVOT_COLUMN \<notin> set cols then (Some KeyError, w)
      else
        let data = create_data PIVOT_COLUMN COLUMNS_TO_CHECK r;
            w1 = print (Creating_new_record data) w
        in (case requests_post remote numpy_row data w1 of
              Inl e \<Rightarrow> (Some e, w1)
            | Inr (response, w2) \<Rightarrow>
                if code response \<noteq> 200
                then (let w3 = print (Error_creating (code response)) w2
                      in if body_is_json response then (None, print Response_body w3)
                         else (Some JSONDecodeError, w3))
                else (None, print Successfully_created w2)))"

fun create_records ::
  "remote \<Rightarrow> string \<Rightarrow> string list \<Rightarrow> string list \<Rightarrow> bool \<Rightarrow> row list \<Rightarrow> world \<Rightarrow> outcome" where
  "create_records remote pivot ccols cols numpy_row [] w = (None, w)"
| "create_records remote pivot ccols cols numpy_row (r # rest) w =
     (case create_record remote pivot ccols cols numpy_row r w of
        (Some e, w') \<Rightarrow> (Some e, w')
      | (None, w') \<Rightarrow> create_records remote pivot ccols cols numpy_row rest w')"

definition synchronize_missing_records ::
  "remote \<Rightarrow> string \<Rightarrow> string list \<Rightarrow> dataframe \<Rightarrow> pyobj \<Rightarrow> world \<Rightarrow> outcome" where
  "synchronize_missing_records remote PIVOT_COLUMN COLUMNS_TO_CHECK airtable_df pcrs_obj w0 =
     (let w1 = print Synchronizing_missing w0 in
      case pcrs_obj of
        Error_str _ \<Rightarrow> (Some TypeError, w1)
      | Frame pcrs_df \<Rightarrow>
      (case getitem pcrs_df PIVOT_COLUMN of
        Inl e \<Rightarrow> (Some e, w1)
      | Inr _ \<Rightarrow>
      (case getitem airtable_df PIVOT_COLUMN of
        Inl e \<Rightarrow> (Some e, w1)
      | Inr airtable_ids \<Rightarrow>
        let missing_records = drop_isin PIVOT_COLUMN airtable_ids pcrs_df;
            w2 = print (Found_missing_in_Airtable (length (rows missing_records))) w1
        in create_records remote PIVOT_COLUMN COLUMNS_TO_CHECK (columns missing_records)
             (int64_frame pcrs_df) (rows missing_records) w2)))"

subsection \<open>synchronize_deleted_records\<close>

text \<open>\<open>df.head()\<close>: the first five rows.\<close>

definition head :: "dataframe \<Rightarrow> dataframe" where
  "head df = df\<lparr>rows := take 5 (rows df)\<rparr>"

definition print_frame :: "dataframe \<Rightarrow> message" where
  "print_frame df = Printed_head (columns df) (map (\<lambda>r. map r (columns df)) (rows df))"

definition synchronize_deleted_records ::
  "string \<Rightarrow> dataframe \<Rightarrow> pyobj \<Rightarrow> world \<Rightarrow> outcome" where
  "synchronize_deleted_records PIVOT_COLUMN airtable_df pcrs_obj w0 =
     (let w1 = print Synchronizing_deleted w0 in
      case getitem airtable_df PIVOT_COLUMN of
        Inl e \<Rightarrow> (Some e, w1)
      | Inr _ \<Rightarrow>
      (case pcrs_obj of
        Error_str _ \<Rightarrow> (Some TypeError, w1)
      | Frame pcrs_df \<Rightarrow>
      (case getitem pcrs_df PIVOT_COLUMN of
        Inl e \<Rightarrow> (Some e, w1)
      | Inr pcrs_ids \<Rightarrow>
        let deleted_records = drop_isin PIVOT_COLUMN pcrs_ids airtable_df;
            w2 = print (Found_missing_in_PCRS (length (rows deleted_records))) w1
        in (None, if rows deleted_records \<noteq> [] then print (print_frame (head deleted_records)) w2
                  else w2))))"

section \<open>The main process\<close>

text \<open>
  The block under \<open>if __name__ == "__main__"\<close>. Nothing there looks at what
  \<open>get_csv_export_data\<close> returned, and nothing catches an exception: the first pass that
  raises ends the run. \<open>None\<close> is the run that never leaves the pagination loop.
\<close>

definition main ::
  "remote \<Rightarrow> string \<Rightarrow> string list \<Rightarrow> (nat \<Rightarrow> response) \<Rightarrow> csv_response \<Rightarrow> outcome option" where
  "main remote PIVOT_COLUMN COLUMNS_TO_CHECK pages csv =
     (let w = print Step_1 \<lparr>sent = [], out = []\<rparr> in
      case get_airtable_data pages w of
        None \<Rightarrow> None
      | Some (airtable_df, w) \<Rightarrow>
       (let w = print Step_2 (print Blank w);
            (pcrs_df, w) = get_csv_export_data csv w;
            w = print Step_3 (print Blank w)
        in Some
          (case synchronize_different_records remote PIVOT_COLUMN COLUMNS_TO_CHECK airtable_df pcrs_df w of
             (Some e, w) \<Rightarrow> (Some e, w)
           | (None, w) \<Rightarrow>
          (case synchronize_missing_records remote PIVOT_COLUMN COLUMNS_TO_CHECK airtable_df pcrs_df
                  (print Blank w) of
             (Some e, w) \<Rightarrow> (Some e, w)
           | (None, w) \<Rightarrow>
          (case synchronize_deleted_records PIVOT_COLUMN airtable_df pcrs_df (print Blank w) of
             (Some e, w) \<Rightarrow> (Some e, w)
           | (None, w) \<Rightarrow> (None, print Completed (print Blank w)))))))"

section \<open>Example inputs\<close>

text \<open>
  A server that answers with two pages of one record each, both with a continuation
  token, and then with a last page of one record without a token.
\<close>

definition three_pages :: "nat \<Rightarrow> response" where
  "three_pages i =
     (if i = 0 then \<lparr>resp_records = Some [\<lparr>rec_id = Str ''rec1'', rec_fields = [(''pivot'', Str ''A1'')]\<rparr>],
                      resp_offset = Some ''itr1''\<rparr>
      else if i = 1 then \<lparr>resp_records = Some [\<lparr>rec_id = Str ''rec2'', rec_fields = [(''pivot'', Str ''A2'')]\<rparr>],
                      resp_offset = Some ''itr2''\<rparr>
      else \<lparr>resp_records = Some [\<lparr>rec_id = Str ''rec3'', rec_fields = []\<rparr>], resp_offset = None\<rparr>)"

text \<open>A server whose every page carries a token.\<close>

definition endless_pages :: "nat \<Rightarrow> response" where
  "endless_pages i = \<lparr>resp_records = Some [], resp_offset = Some ''again''\<rparr>"

text \<open>
  A remote store that accepts every write, and one that answers the first write it
  receives with status 502 and a page of HTML.
\<close>

definition accepts_all :: remote where
  "accepts_all history rq = \<lparr>code = 200, body_is_json = True\<rparr>"

definition refuses_first :: remote where
  "refuses_first history rq =
     (if history = [] then \<lparr>code = 502, body_is_json = False\<rparr>
      else \<lparr>code = 200, body_is_json = True\<rparr>)"

text \<open>
  A remote table of two records, the first without a status, as \<open>get_airtable_data\<close>
  builds it (\<open>remote_table_is_frame\<close> below), and exports of the other system: one
  with the same two records (the cell of the status of \<open>A1\<close> empty), one where
  \<open>A1\<close> has a status, one with two records the remote table does not have.
\<close>

definition remote_row_A1 :: row where
  "remote_row_A1 = row_of_dict (record_data \<lparr>rec_id = Str ''rec1'', rec_fields = [(''pivot'', Str ''A1'')]\<rparr>)"

definition remote_row_A2 :: row where
  "remote_row_A2 = row_of_dict (record_data \<lparr>rec_id = Str ''rec2'',
       rec_fields = [(''pivot'', Str ''A2''), (''status'', Str ''open'')]\<rparr>)"

definition remote_table :: dataframe where
  "remote_table = \<lparr>columns = [''pivot'', ''airtable_record_id'', ''status''],
                    rows = [remote_row_A1, remote_row_A2]\<rparr>"

definition export_row_A1 :: row where
  "export_row_A1 = row_of_dict [(''pivot'', Str ''A1'')]"

definition export_row_A2 :: row where
  "export_row_A2 = row_of_dict [(''pivot'', Str ''A2''), (''status'', Str ''open'')]"

definition export_row_B2 :: row where
  "export_row_B2 = row_of_dict [(''pivot'', Str ''B2''), (''status'', Str ''open''), (''comment'', Str ''new'')]"

definition export_row_B3 :: row where
  "export_row_B3 = row_of_dict [(''pivot'', Str ''B3''), (''status'', Str ''closed'')]"

definition export_table :: dataframe where
  "export_table = \<lparr>columns = [''pivot'', ''status'', ''comment''],
                    rows = [export_row_A1, export_row_A2]\<rparr>"

definition export_row_A1_closed :: row where
  "export_row_A1_closed = row_of_dict [(''pivot'', Str ''A1''), (''status'', Str ''closed'')]"

definition export_table_changed :: dataframe where
  "export_table_changed = \<lparr>columns = [''pivot'', ''status'', ''comment''],
                    rows = [export_row_A1_closed, export_row_A2]\<rparr>"

definition export_table_new :: dataframe where
  "export_table_new = \<lparr>columns = [''pivot'', ''status'', ''comment''],
                    rows = [export_row_A2, export_row_B2, export_row_B3]\<rparr>"

text \<open>The world before the run.\<close>

definition start :: world where
  "start = \<lparr>sent = [], out = []\<rparr>"

text \<open>An export with a header and no record, and a remote table of six records.\<close>

definition no_records :: dataframe where
  "no_records = \<lparr>columns = [''pivot'', ''status''], rows = []\<rparr>"

definition six_remote_records :: dataframe where
  "six_remote_records =
     DataFrame (map (\<lambda>(rid, p). record_data \<lparr>rec_id = Str rid, rec_fields = [(''pivot'', Str p)]\<rparr>)
       [(''rec1'', ''C1''), (''rec2'', ''C2''), (''rec3'', ''C3''),
        (''rec4'', ''C4''), (''rec5'', ''C5''), (''rec6'', ''C6'')])"

text \<open>
  A remote table none of whose records carries a status, so that the frame has no
  such column (\<open>remote_table_no_status_is_frame\<close> below); an answer of the remote store
  without any record; an export with a record the remote table does not have and whose
  status is empty; an export whose cells are all integers, which pandas holds as a
  frame of \<open>int64\<close>.
\<close>

definition remote_table_no_status :: dataframe where
  "remote_table_no_status = \<lparr>columns = [''pivot'', ''airtable_record_id''],
                    rows = [remote_row_A1]\<rparr>"

definition empty_page :: "nat \<Rightarrow> response" where
  "empty_page i = \<lparr>resp_records = Some [], resp_offset = None\<rparr>"

definition export_row_B4 :: row where
  "export_row_B4 = row_of_dict [(''pivot'', Str ''B4''), (''comment'', Str ''no status yet'')]"

definition export_table_gap :: dataframe where
  "export_table_gap = \<lparr>columns = [''pivot'', ''status'', ''comment''],
                    rows = [export_row_A2, export_row_B4]\<rparr>"

definition export_table_integers :: dataframe where
  "export_table_integers = \<lparr>columns = [''pivot'', ''status''],
                    rows = [row_of_dict [(''pivot'', Num 7), (''status'', Num 1)]]\<rparr>"

section \<open>The pagination loop\<close>

text \<open>
  When the pages \<open>i, \<dots>, i + n - 1\<close> carry a token and page \<open>i + n\<close> does not, the loop
  entered at page \<open>i\<close> leaves after page \<open>i + n\<close> with the records of these pages
  appended, in order, to those it had.
\<close>

lemma fetch_loop_run:
  "\<forall>j<n. truthy (resp_offset (pages (i + j))) \<Longrightarrow> \<not> truthy (resp_offset (pages (i + n)))
   \<Longrightarrow> fetch_loop pages i acc = Some (acc @ concat (map (\<lambda>j. get_records (pages j)) [i..<Suc (i + n)]))"
proof (induction n arbitrary: i acc)
  case 0
  then show ?case by (subst fetch_loop.simps) simp
next
  case (Suc n)
  have t: "truthy (resp_offset (pages i))" using Suc.prems(1) by (metis add.right_neutral zero_less_Suc)
  have a: "\<forall>j<n. truthy (resp_offset (pages (Suc i + j)))" using Suc.prems(1) by auto
  have b: "\<not> truthy (resp_offset (pages (Suc i + n)))" using Suc.prems(2) by simp
  have "fetch_loop pages i acc = fetch_loop pages (Suc i) (acc @ get_records (pages i))"
    using t by (subst fetch_loop.simps) simp
  also have "\<dots> = Some ((acc @ get_records (pages i)) @ concat (map (\<lambda>j. get_records (pages j)) [Suc i..<Suc (Suc i + n)]))"
    by (rule Suc.IH [OF a b])
  also have "\<dots> = Some (acc @ concat (map (\<lambda>j. get_records (pages j)) [i..<Suc (i + Suc n)]))"
    using upt_conv_Cons [of i "Suc (i + Suc n)"] by simp
  finally show ?case .
qed

text \<open>A loop that leaves has met a page without a token.\<close>

lemma fetch_loop_Some_falsy:
  assumes "fetch_loop pages i acc = Some y"
  shows "\<exists>j\<ge>i. \<not> truthy (resp_offset (pages j))"
proof (rule fetch_loop.raw_induct
    [where P = "\<lambda>pages i acc y. \<exists>j\<ge>i. \<not> truthy (resp_offset (pages j))", OF _ assms])
  fix loop pages i acc y
  assume IH: "\<And>pages i acc y. loop pages i acc = Some y
                \<Longrightarrow> \<exists>j\<ge>i. \<not> truthy (resp_offset (pages j))"
    and body: "(if truthy (resp_offset (pages i))
                then loop pages (Suc i) (acc @ get_records (pages i))
                else Some (acc @ get_records (pages i))) = Some (y :: airtable_record list)"
  show "\<exists>j\<ge>i. \<not> truthy (resp_offset (pages j))"
  proof (cases "truthy (resp_offset (pages i))")
    case True
    with body have "loop pages (Suc i) (acc @ get_records (pages i)) = Some y" by simp
    from IH [OF this] obtain j where "Suc i \<le> j" "\<not> truthy (resp_offset (pages j))" by blast
    then show ?thesis by (meson Suc_leD)
  next
    case False
    then show ?thesis by blast
  qed
qed

lemma fetch_loop_first_falsy:
  assumes "\<not> truthy (resp_offset (pages j))"
  shows "\<exists>recs. fetch_loop pages 0 [] = Some recs"
proof -
  define n where "n = (LEAST k. \<not> truthy (resp_offset (pages k)))"
  have f: "\<not> truthy (resp_offset (pages n))" unfolding n_def using assms by (rule LeastI)
  have t: "\<forall>k<n. truthy (resp_offset (pages k))" unfolding n_def using not_less_Least by blast
  from fetch_loop_run [of n pages 0 "[]"] t f show ?thesis by simp
qed

text \<open>
  C6. When the server answers with \<open>N\<close> pages of \<open>K\<close> records each, every one with a
  truthy continuation token, and then with a page whose token is falsy or absent,
  \<open>get_airtable_data\<close> returns a table with one row for every record of every page,
  each once and in page order: \<open>N * K\<close> rows and those of the last page. The line it
  prints gives the same number.
\<close>

theorem pagination_accumulates_all_pages:
  assumes "\<forall>i<N. truthy (resp_offset (pages i)) \<and> length (get_records (pages i)) = K"
    and "\<not> truthy (resp_offset (pages N))"
  shows "\<exists>df. get_airtable_data pages w =
                 Some (df, print (Found_in_Airtable (N * K + length (get_records (pages N)))) w)
              \<and> rows df = map (row_of_dict \<circ> record_data)
                              (concat (map (\<lambda>i. get_records (pages i)) [0..<Suc N]))
              \<and> length (rows df) = N * K + length (get_records (pages N))"
proof -
  let ?all = "concat (map (\<lambda>i. get_records (pages i)) [0..<Suc N])"
  have run: "fetch_loop pages 0 [] = Some ?all"
    using fetch_loop_run [of N pages 0 "[]"] assms by simp
  have "length (concat (map (\<lambda>i. get_records (pages i)) [0..<N])) = N * K"
    using assms(1)
  proof (induction N)
    case 0
    show ?case by simp
  next
    case (Suc N)
    then show ?case by simp
  qed
  then have len: "length ?all = N * K + length (get_records (pages N))" by simp
  show ?thesis
    by (simp add: get_airtable_data_def run DataFrame_def len del: upt_Suc)
qed

theorem pagination_accumulates_all_pages_witness:
  "truthy (resp_offset (three_pages 0)) \<and> length (get_records (three_pages 0)) = 1
   \<and> truthy (resp_offset (three_pages 1)) \<and> length (get_records (three_pages 1)) = 1
   \<and> \<not> truthy (resp_offset (three_pages 2))
   \<and> (\<exists>df. get_airtable_data three_pages \<lparr>sent = [], out = []\<rparr> =
              Some (df, \<lparr>sent = [], out = [Found_in_Airtable 3]\<rparr>) \<and> length (rows df) = 3)"
proof -
  let ?w = "\<lparr>sent = [], out = []\<rparr>"
  have p0: "truthy (resp_offset (three_pages 0)) \<and> length (get_records (three_pages 0)) = 1"
    by (simp add: three_pages_def truthy_def get_records_def)
  have p1: "truthy (resp_offset (three_pages 1)) \<and> length (get_records (three_pages 1)) = 1"
    by (simp add: three_pages_def truthy_def get_records_def)
  have h1: "\<forall>i<2. truthy (resp_offset (three_pages i)) \<and> length (get_records (three_pages i)) = 1"
    using p0 p1 by (simp add: numeral_2_eq_2 less_Suc_eq)
  have h2: "\<not> truthy (resp_offset (three_pages 2))"
    by (simp add: three_pages_def truthy_def)
  have h3: "length (get_records (three_pages 2)) = 1"
    by (simp add: three_pages_def get_records_def)
  from pagination_accumulates_all_pages [OF h1 h2, of ?w] obtain df where
    d: "get_airtable_data three_pages ?w =
          Some (df, print (Found_in_Airtable (2 * 1 + length (get_records (three_pages 2)))) ?w)"
    and l: "length (rows df) = 2 * 1 + length (get_records (three_pages 2))"
    by blast
  have "get_airtable_data three_pages ?w = Some (df, \<lparr>sent = [], out = [Found_in_Airtable 3]\<rparr>)"
    using d by (simp add: h3 print_def)
  moreover have "length (rows df) = 3" using l by (simp add: h3)
  ultimately have "\<exists>df. get_airtable_data three_pages ?w =
      Some (df, \<lparr>sent = [], out = [Found_in_Airtable 3]\<rparr>) \<and> length (rows df) = 3"
    by blast
  with p0 p1 h2 show ?thesis by blast
qed

text \<open>
  C10. \<open>get_airtable_data\<close> returns if and only if some page of the sequence has a
  falsy or absent continuation token; so, when the server in the end sends a page
  without a token, the pagination loop is total.
\<close>

theorem pagination_terminates_iff:
  "(\<exists>df w'. get_airtable_data pages w = Some (df, w')) \<longleftrightarrow> (\<exists>i. \<not> truthy (resp_offset (pages i)))"
proof
  assume "\<exists>df w'. get_airtable_data pages w = Some (df, w')"
  then obtain recs where "fetch_loop pages 0 [] = Some recs"
    by (auto simp: get_airtable_data_def split: option.splits)
  from fetch_loop_Some_falsy [OF this] show "\<exists>i. \<not> truthy (resp_offset (pages i))" by blast
next
  assume "\<exists>i. \<not> truthy (resp_offset (pages i))"
  then obtain j where "\<not> truthy (resp_offset (pages j))" ..
  then have "\<exists>recs. fetch_loop pages 0 [] = Some recs" by (rule fetch_loop_first_falsy)
  then show "\<exists>df w'. get_airtable_data pages w = Some (df, w')"
    by (auto simp: get_airtable_data_def)
qed

theorem pagination_terminates_iff_witness:
  "(\<exists>df w'. get_airtable_data three_pages \<lparr>sent = [], out = []\<rparr> = Some (df, w'))
   \<and> get_airtable_data endless_pages \<lparr>sent = [], out = []\<rparr> = None"
proof -
  have "\<not> truthy (resp_offset (three_pages 2))" by (simp add: three_pages_def truthy_def)
  then have a: "\<exists>df w'. get_airtable_data three_pages \<lparr>sent = [], out = []\<rparr> = Some (df, w')"
    using pagination_terminates_iff [of three_pages "\<lparr>sent = [], out = []\<rparr>"] by blast
  have "\<not> (\<exists>i. \<not> truthy (resp_offset (endless_pages i)))" by (simp add: endless_pages_def truthy_def)
  then have "\<not> (\<exists>df w'. get_airtable_data endless_pages \<lparr>sent = [], out = []\<rparr> = Some (df, w'))"
    using pagination_terminates_iff [of endless_pages "\<lparr>sent = [], out = []\<rparr>"] by blast
  then have b: "get_airtable_data endless_pages \<lparr>sent = [], out = []\<rparr> = None"
    by (cases "get_airtable_data endless_pages \<lparr>sent = [], out = []\<rparr>") auto
  from a b show ?thesis ..
qed

section \<open>The configuration layers\<close>

text \<open>
  C8. The resolved configuration is the merge, each layer over the ones before it, of
  built-in defaults (the source has none: the layer is empty), the shared file, the
  secret file and the process environment. So for every setting key it has the value
  of the latest layer that defines the key: the environment wins over both files, and
  the secret file over the shared one.
\<close>

theorem config_resolution_order:
  "config env_shared env_secret os_environ = ((Map.empty ++ env_shared) ++ env_secret) ++ os_environ
   \<and> config env_shared env_secret os_environ k =
     (case os_environ k of Some v \<Rightarrow> Some v
      | None \<Rightarrow> (case env_secret k of Some v \<Rightarrow> Some v | None \<Rightarrow> env_shared k))"
  by (simp add: config_def map_add_def split: option.splits)

section \<open>Dictionaries\<close>

text \<open>
  Assigning to a key adds the key and nothing else; the value read back is the one
  assigned.
\<close>

lemma keys_dict_set: "keys (dict_set k v d) = insert k (keys d)"
  by (induction k v d rule: dict_set.induct) (auto simp: keys_def)

lemma map_of_dict_set: "map_of (dict_set k v d) = (map_of d)(k \<mapsto> v)"
  by (induction k v d rule: dict_set.induct) (auto simp: fun_eq_iff)

lemma keys_fold_dict_set:
  "keys (fold (\<lambda>c. dict_set c (r c)) cols d0) = set cols \<union> keys d0"
  by (induction cols arbitrary: d0) (auto simp: keys_dict_set)

lemma map_of_fold_dict_set:
  "map_of (fold (\<lambda>c. dict_set c (r c)) cols d0) c =
     (if c \<in> set cols then Some (r c) else map_of d0 c)"
  by (induction cols arbitrary: d0) (auto simp: map_of_dict_set)

lemma keys_Nil: "keys [] = {}"
  by (simp add: keys_def)

lemma keys_to_dict: "keys (to_dict cols r) = set cols"
  by (simp add: to_dict_def keys_fold_dict_set keys_Nil)

lemma dict_get_to_dict: "dict_get (to_dict cols r) c = (if c \<in> set cols then Some (r c) else None)"
  by (simp add: to_dict_def dict_get_def map_of_fold_dict_set)

lemma keys_create_data: "keys (create_data pivot cols r) = insert pivot (set cols)"
  by (simp add: create_data_def keys_dict_set keys_to_dict)

lemma dict_get_create_data:
  "dict_get (create_data pivot cols r) c = (if c = pivot \<or> c \<in> set cols then Some (r c) else None)"
  using dict_get_to_dict [of cols r c]
  by (simp add: create_data_def dict_get_def map_of_dict_set)

section \<open>What a pass leaves\<close>

lemma sent_print [simp]: "sent (print m w) = sent w"
  by (simp add: print_def)

lemma out_print [simp]: "out (print m w) = out w @ [m]"
  by (simp add: print_def)

text \<open>
  What is encoded for an update: the dict of a row has a missing value exactly when
  the row has one in a compared column.
\<close>

lemma set_dict_set:
  "(\<forall>kv\<in>set d. fst kv = k \<longrightarrow> snd kv = v) \<Longrightarrow> set (dict_set k v d) = insert (k, v) (set d)"
  by (induction k v d rule: dict_set.induct) auto

lemma set_fold_dict_set:
  "(\<forall>kv\<in>set d0. snd kv = r (fst kv))
   \<Longrightarrow> set (fold (\<lambda>c. dict_set c (r c)) cols d0) = set d0 \<union> (\<lambda>c. (c, r c)) ` set cols"
proof (induction cols arbitrary: d0)
  case Nil
  show ?case by simp
next
  case (Cons c cols)
  have s: "set (dict_set c (r c) d0) = insert (c, r c) (set d0)"
    using Cons.prems by (intro set_dict_set) auto
  have "\<forall>kv\<in>set (dict_set c (r c) d0). snd kv = r (fst kv)"
    unfolding s using Cons.prems by auto
  from Cons.IH [OF this] show ?case unfolding s by auto
qed

lemma set_to_dict: "set (to_dict cols r) = (\<lambda>c. (c, r c)) ` set cols"
  using set_fold_dict_set [of "[]" r cols] by (simp add: to_dict_def)

lemma has_nan_to_dict: "has_nan (to_dict cols r) \<longleftrightarrow> (\<exists>c\<in>set cols. r c = NaN)"
  by (force simp: has_nan_def set_to_dict image_iff)

text \<open>
  One update either raises and leaves the world as it was, or sends its request and
  prints one line about the answer.
\<close>

lemma update_record_cases:
  "(\<exists>e. update_record remote cols a p ir w = (Some e, w))
   \<or> (\<exists>found. loc p (fst ir) = Inr found
         \<and> json_dumps (updated_fields cols (fst ir) found) = None
         \<and> update_record remote cols a p ir w =
             (None, w\<lparr>sent := sent w @ [Patch (snd ir ''airtable_record_id'') (updated_fields cols (fst ir) found)],
                      out := out w @ [if code (remote (sent w) (Patch (snd ir ''airtable_record_id'') (updated_fields cols (fst ir) found))) \<noteq> 200
                                      then Error_updating (snd ir ''airtable_record_id'')
                                             (code (remote (sent w) (Patch (snd ir ''airtable_record_id'') (updated_fields cols (fst ir) found))))
                                      else Successfully_updated (snd ir ''airtable_record_id'')]\<rparr>))"
proof (cases "''airtable_record_id'' \<in> set (icolumns a)")
  case False
  then have "\<exists>e. update_record remote cols a p ir w = (Some e, w)"
    by (simp add: update_record_def)
  then show ?thesis ..
next
  case True
  show ?thesis
  proof (cases "loc p (fst ir)")
    case (Inl e)
    with True have "\<exists>e. update_record remote cols a p ir w = (Some e, w)"
      by (simp add: update_record_def)
    then show ?thesis ..
  next
    case (Inr found)
    show ?thesis
    proof (cases "json_dumps (updated_fields cols (fst ir) found)")
      case (Some e)
      with True Inr have "\<exists>e. update_record remote cols a p ir w = (Some e, w)"
        by (simp add: update_record_def requests_patch_def)
      then show ?thesis ..
    next
      case None
      with True Inr show ?thesis
        by (simp add: update_record_def requests_patch_def send_def print_def Let_def)
    qed
  qed
qed

lemma update_records_sent_form:
  "\<exists>news. sent (snd (update_records remote cols a p recs w)) = sent w @ news
     \<and> (\<forall>rq\<in>set news. \<exists>ir\<in>set recs. \<exists>found. loc p (fst ir) = Inr found
            \<and> json_dumps (updated_fields cols (fst ir) found) = None
            \<and> rq = Patch (snd ir ''airtable_record_id'') (updated_fields cols (fst ir) found))"
proof (induction recs arbitrary: w)
  case Nil
  show ?case by simp
next
  case (Cons ir recs)
  from update_record_cases [of remote cols a p ir w]
  show ?case
  proof
    assume "\<exists>e. update_record remote cols a p ir w = (Some e, w)"
    then obtain e where "update_record remote cols a p ir w = (Some e, w)" ..
    then have "sent (snd (update_records remote cols a p (ir # recs) w)) = sent w @ []" by simp
    then show ?thesis by (intro exI [of _ "[]"]) simp
  next
    assume "\<exists>found. loc p (fst ir) = Inr found
         \<and> json_dumps (updated_fields cols (fst ir) found) = None
         \<and> update_record remote cols a p ir w =
             (None, w\<lparr>sent := sent w @ [Patch (snd ir ''airtable_record_id'') (updated_fields cols (fst ir) found)],
                      out := out w @ [if code (remote (sent w) (Patch (snd ir ''airtable_record_id'') (updated_fields cols (fst ir) found))) \<noteq> 200
                                      then Error_updating (snd ir ''airtable_record_id'')
                                             (code (remote (sent w) (Patch (snd ir ''airtable_record_id'') (updated_fields cols (fst ir) found))))
                                      else Successfully_updated (snd ir ''airtable_record_id'')]\<rparr>)"
    then obtain found w' where l: "loc p (fst ir) = Inr found"
      and j: "json_dumps (updated_fields cols (fst ir) found) = None"
      and step: "update_record remote cols a p ir w = (None, w')"
      and s: "sent w' = sent w @ [Patch (snd ir ''airtable_record_id'') (updated_fields cols (fst ir) found)]"
      by force
    from Cons.IH [of w'] obtain n2 where
      n2: "sent (snd (update_records remote cols a p recs w')) = sent w' @ n2"
      and f2: "\<forall>rq\<in>set n2. \<exists>ir\<in>set recs. \<exists>found. loc p (fst ir) = Inr found
            \<and> json_dumps (updated_fields cols (fst ir) found) = None
            \<and> rq = Patch (snd ir ''airtable_record_id'') (updated_fields cols (fst ir) found)"
      by blast
    let ?rq = "Patch (snd ir ''airtable_record_id'') (updated_fields cols (fst ir) found)"
    have "sent (snd (update_records remote cols a p (ir # recs) w)) = sent w @ (?rq # n2)"
      using step s n2 by simp
    moreover have "\<forall>rq\<in>set (?rq # n2). \<exists>ir'\<in>set (ir # recs). \<exists>found. loc p (fst ir') = Inr found
            \<and> json_dumps (updated_fields cols (fst ir') found) = None
            \<and> rq = Patch (snd ir' ''airtable_record_id'') (updated_fields cols (fst ir') found)"
      using l j f2 by auto
    ultimately show ?thesis by blast
  qed
qed


text \<open>
  The requests of the update loop, and the exception it ends with, do not depend on
  what the remote store answers; a request answered with another status than 200 has
  its line in the output.
\<close>

lemma update_record_remote:
  assumes "sent w1 = sent w2"
  shows "fst (update_record r1 cols a p ir w1) = fst (update_record r2 cols a p ir w2)
       \<and> sent (snd (update_record r1 cols a p ir w1)) = sent (snd (update_record r2 cols a p ir w2))"
proof (cases "''airtable_record_id'' \<in> set (icolumns a)")
  case False
  then show ?thesis using assms by (simp add: update_record_def)
next
  case True
  show ?thesis
  proof (cases "loc p (fst ir)")
    case (Inl e)
    with True show ?thesis using assms by (simp add: update_record_def)
  next
    case (Inr found)
    show ?thesis
    proof (cases "json_dumps (updated_fields cols (fst ir) found)")
      case (Some e)
      with True Inr show ?thesis using assms
        by (simp add: update_record_def requests_patch_def)
    next
      case None
      with True Inr show ?thesis using assms
        by (simp add: update_record_def requests_patch_def send_def Let_def)
    qed
  qed
qed

lemma update_records_remote:
  assumes "sent w1 = sent w2"
  shows "fst (update_records r1 cols a p recs w1) = fst (update_records r2 cols a p recs w2)
       \<and> sent (snd (update_records r1 cols a p recs w1)) = sent (snd (update_records r2 cols a p recs w2))"
  using assms
proof (induction recs arbitrary: w1 w2)
  case Nil
  then show ?case by simp
next
  case (Cons ir recs)
  obtain e1 v1 e2 v2 where u1: "update_record r1 cols a p ir w1 = (e1, v1)"
    and u2: "update_record r2 cols a p ir w2 = (e2, v2)"
    by (metis surj_pair)
  from update_record_remote [OF Cons.prems, of r1 cols a p ir r2] u1 u2
  have e: "e1 = e2" and s: "sent v1 = sent v2" by simp_all
  show ?case using Cons.IH [OF s] u1 u2 e s by (cases e2) simp_all
qed

lemma update_records_logs:
  "\<exists>news logs. sent (snd (update_records remote cols a p recs w)) = sent w @ news
     \<and> out (snd (update_records remote cols a p recs w)) = out w @ logs
     \<and> (\<forall>i<length news. code (remote (sent w @ take i news) (news ! i)) \<noteq> 200 \<longrightarrow>
           (\<exists>rid f. news ! i = Patch rid f
              \<and> Error_updating rid (code (remote (sent w @ take i news) (news ! i))) \<in> set logs))"
proof (induction recs arbitrary: w)
  case Nil
  show ?case by simp
next
  case (Cons ir recs)
  from update_record_cases [of remote cols a p ir w]
  show ?case
  proof
    assume "\<exists>e. update_record remote cols a p ir w = (Some e, w)"
    then obtain e where "update_record remote cols a p ir w = (Some e, w)" ..
    then have "snd (update_records remote cols a p (ir # recs) w) = w" by simp
    then show ?thesis by simp
  next
    let ?rq = "Patch (snd ir ''airtable_record_id'') (updated_fields cols (fst ir) found)"
    assume "\<exists>found. loc p (fst ir) = Inr found
         \<and> json_dumps (updated_fields cols (fst ir) found) = None
         \<and> update_record remote cols a p ir w =
             (None, w\<lparr>sent := sent w @ [Patch (snd ir ''airtable_record_id'') (updated_fields cols (fst ir) found)],
                      out := out w @ [if code (remote (sent w) (Patch (snd ir ''airtable_record_id'') (updated_fields cols (fst ir) found))) \<noteq> 200
                                      then Error_updating (snd ir ''airtable_record_id'')
                                             (code (remote (sent w) (Patch (snd ir ''airtable_record_id'') (updated_fields cols (fst ir) found))))
                                      else Successfully_updated (snd ir ''airtable_record_id'')]\<rparr>)"
    then obtain rid f where step: "update_record remote cols a p ir w =
         (None, w\<lparr>sent := sent w @ [Patch rid f],
                  out := out w @ [if code (remote (sent w) (Patch rid f)) \<noteq> 200
                                  then Error_updating rid (code (remote (sent w) (Patch rid f)))
                                  else Successfully_updated rid]\<rparr>)"
      by blast
    let ?m = "if code (remote (sent w) (Patch rid f)) \<noteq> 200
              then Error_updating rid (code (remote (sent w) (Patch rid f)))
              else Successfully_updated rid"
    let ?w' = "w\<lparr>sent := sent w @ [Patch rid f], out := out w @ [?m]\<rparr>"
    from Cons.IH [of ?w'] obtain news logs where
      s: "sent (snd (update_records remote cols a p recs ?w')) = sent ?w' @ news"
      and l: "out (snd (update_records remote cols a p recs ?w')) = out ?w' @ logs"
      and g: "\<forall>i<length news. code (remote (sent ?w' @ take i news) (news ! i)) \<noteq> 200 \<longrightarrow>
           (\<exists>rid f. news ! i = Patch rid f
              \<and> Error_updating rid (code (remote (sent ?w' @ take i news) (news ! i))) \<in> set logs)"
      by blast
    have r: "update_records remote cols a p (ir # recs) w = update_records remote cols a p recs ?w'"
      using step by simp
    have s': "sent (snd (update_records remote cols a p (ir # recs) w)) = sent w @ (Patch rid f # news)"
      unfolding r s by simp
    have l': "out (snd (update_records remote cols a p (ir # recs) w)) = out w @ (?m # logs)"
      unfolding r l by simp
    have g': "\<exists>rid' f'. (Patch rid f # news) ! i = Patch rid' f'
              \<and> Error_updating rid' (code (remote (sent w @ take i (Patch rid f # news)) ((Patch rid f # news) ! i)))
                   \<in> set (?m # logs)"
      if "i < length (Patch rid f # news)"
        and "code (remote (sent w @ take i (Patch rid f # news)) ((Patch rid f # news) ! i)) \<noteq> 200" for i
    proof (cases i)
      case 0
      with that(2) show ?thesis by simp
    next
      case (Suc j)
      with that have j: "j < length news"
        and st: "code (remote (sent ?w' @ take j news) (news ! j)) \<noteq> 200" by simp_all
      from g j st obtain rid' f' where "news ! j = Patch rid' f'"
        and "Error_updating rid' (code (remote (sent ?w' @ take j news) (news ! j))) \<in> set logs"
        by blast
      with Suc show ?thesis by simp
    qed
    show ?thesis
    proof (intro exI [of _ "Patch rid f # news"] exI [of _ "?m # logs"] conjI allI impI)
      show "sent (snd (update_records remote cols a p (ir # recs) w)) = sent w @ Patch rid f # news"
        using s' by simp
      show "out (snd (update_records remote cols a p (ir # recs) w)) = out w @ ?m # logs"
        using l' by simp
    next
      fix i
      assume "i < length (Patch rid f # news)"
        and "code (remote (sent w @ take i (Patch rid f # news)) ((Patch rid f # news) ! i)) \<noteq> 200"
      then show "\<exists>rid' f'. (Patch rid f # news) ! i = Patch rid' f'
              \<and> Error_updating rid' (code (remote (sent w @ take i (Patch rid f # news)) ((Patch rid f # news) ! i)))
                   \<in> set (?m # logs)"
        by (rule g')
    qed
  qed
qed

section \<open>Rows that face each other\<close>

text \<open>
  After the two \<open>isin\<close> filters, \<open>set_index\<close> and \<open>align\<close>, the two frames have the
  same labels in the same order: row \<open>i\<close> of one faces row \<open>i\<close> of the other, and the
  pairs are the pairs of a remote record and an export record of one pivot value.
\<close>

lemma join_rows_mem:
  "(l, ra, rp) \<in> set (join_rows a p) \<longleftrightarrow> (l, ra) \<in> set (irows a) \<and> (l, rp) \<in> set (irows p)"
  by (force simp: join_rows_def)

lemma common_records_columns:
  "icolumns (fst (common_records pivot a p)) = removeAll pivot (columns a)"
  "icolumns (snd (common_records pivot a p)) = removeAll pivot (columns p)"
  by (simp_all add: common_records_def align_inner_def set_index_def keep_isin_def Let_def)

lemma common_records_rows:
  "\<exists>J. irows (fst (common_records pivot a p)) = map (\<lambda>(l, ra, rp). (l, ra)) J
     \<and> irows (snd (common_records pivot a p)) = map (\<lambda>(l, ra, rp). (l, rp)) J
     \<and> (\<forall>l ra rp. (l, ra, rp) \<in> set J \<longleftrightarrow>
           ra \<in> set (rows a) \<and> rp \<in> set (rows p) \<and> ra pivot = l \<and> rp pivot = l)"
proof -
  define a1 where "a1 = keep_isin pivot (map (\<lambda>r. r pivot) (rows p)) a"
  define p1 where "p1 = keep_isin pivot (map (\<lambda>r. r pivot) (rows a1)) p"
  define J where "J = join_rows (set_index pivot a1) (set_index pivot p1)"
  have 1: "irows (fst (common_records pivot a p)) = map (\<lambda>(l, ra, rp). (l, ra)) J"
    by (simp add: common_records_def align_inner_def Let_def J_def a1_def p1_def)
  have 2: "irows (snd (common_records pivot a p)) = map (\<lambda>(l, ra, rp). (l, rp)) J"
    by (simp add: common_records_def align_inner_def Let_def J_def a1_def p1_def)
  have 3: "(l, ra, rp) \<in> set J \<longleftrightarrow>
           ra \<in> set (rows a) \<and> rp \<in> set (rows p) \<and> ra pivot = l \<and> rp pivot = l" for l ra rp
  proof -
    have ia: "(l, r) \<in> set (irows (set_index pivot a1)) \<longleftrightarrow> r \<in> set (rows a1) \<and> r pivot = l" for l r
      by (auto simp: set_index_def)
    have ip: "(l, r) \<in> set (irows (set_index pivot p1)) \<longleftrightarrow> r \<in> set (rows p1) \<and> r pivot = l" for l r
      by (auto simp: set_index_def)
    have ra1: "r \<in> set (rows a1) \<longleftrightarrow> r \<in> set (rows a) \<and> (\<exists>r'\<in>set (rows p). r pivot = r' pivot)" for r
      by (auto simp: a1_def keep_isin_def image_iff)
    have rp1: "r \<in> set (rows p1) \<longleftrightarrow> r \<in> set (rows p) \<and> (\<exists>r'\<in>set (rows a1). r pivot = r' pivot)" for r
      by (auto simp: p1_def keep_isin_def image_iff)
    show ?thesis
      unfolding J_def join_rows_mem ia ip
    proof
      assume "(ra \<in> set (rows a1) \<and> ra pivot = l) \<and> rp \<in> set (rows p1) \<and> rp pivot = l"
      then show "ra \<in> set (rows a) \<and> rp \<in> set (rows p) \<and> ra pivot = l \<and> rp pivot = l"
        using ra1 rp1 by blast
    next
      assume R: "ra \<in> set (rows a) \<and> rp \<in> set (rows p) \<and> ra pivot = l \<and> rp pivot = l"
      then have "\<exists>r'\<in>set (rows p). ra pivot = r' pivot" by (intro bexI [of _ rp]) simp_all
      with R have a: "ra \<in> set (rows a1)" using ra1 [of ra] by blast
      then have "\<exists>r'\<in>set (rows a1). rp pivot = r' pivot" using R by (intro bexI [of _ ra]) simp_all
      with R have "rp \<in> set (rows p1)" using rp1 [of rp] by blast
      with a show "(ra \<in> set (rows a1) \<and> ra pivot = l) \<and> rp \<in> set (rows p1) \<and> rp pivot = l"
        using R by blast
    qed
  qed
  from 1 2 3 show ?thesis by blast
qed

lemma different_records_of_pairs:
  assumes "irows a = map (\<lambda>(l, ra, rp). (l, ra)) J" "irows p = map (\<lambda>(l, ra, rp). (l, rp)) J"
  shows "different_records cols a p =
           map (\<lambda>(l, ra, rp). (l, ra)) (filter (\<lambda>(l, ra, rp). \<not> all_eq cols ra rp) J)"
proof -
  have z: "zip (irows a) (irows p) = map (\<lambda>(l, ra, rp). ((l, ra), (l, rp))) J"
    unfolding assms by (induction J) auto
  show ?thesis
    unfolding different_records_def z
    by (induction J) auto
qed

text \<open>
  Where the pivot values of a table are all different, \<open>.loc\<close> at a label finds
  one row, and the aligned export keeps labels that are all different.
\<close>

lemma filter_key_distinct:
  assumes "distinct (map fst xs)" "(k, v) \<in> set xs"
  shows "filter (\<lambda>(l, r). l = k) xs = [(k, v)]"
  using assms
proof (induction xs)
  case Nil
  then show ?case by simp
next
  case (Cons x xs)
  show ?case
  proof (cases "x = (k, v)")
    case True
    with Cons.prems(1) have "\<forall>y\<in>set xs. fst y \<noteq> k" by (auto simp: image_iff)
    then have "filter (\<lambda>(l, r). l = k) xs = []"
      by (auto simp: filter_empty_conv)
    with True show ?thesis by simp
  next
    case False
    with Cons.prems have in_xs: "(k, v) \<in> set xs" and d: "distinct (map fst xs)" by auto
    from Cons.prems(1) in_xs have "fst x \<noteq> k" by (force simp: image_iff)
    with Cons.IH [OF d in_xs] show ?thesis by (cases x) simp
  qed
qed

lemma loc_distinct:
  assumes "distinct (map fst (irows p))" "(l, r) \<in> set (irows p)"
  shows "loc p l = Inr (One_row r)"
  using filter_key_distinct [OF assms] by (simp add: loc_def)

lemma distinct_map_fst_append:
  "distinct (map fst A) \<Longrightarrow> distinct (map fst B) \<Longrightarrow> fst ` set A \<inter> fst ` set B = {}
   \<Longrightarrow> distinct (map fst (A @ B))"
  by simp

lemma map_fst_join_rows:
  assumes "distinct (map fst ys)"
  shows "distinct (map fst xs) \<Longrightarrow>
     distinct (map fst (concat (map (\<lambda>(l, ra). map (\<lambda>(l', rp). (l, ra, rp))
                         (filter (\<lambda>(l', rp). l' = l) ys)) xs)))
     \<and> fst ` set (concat (map (\<lambda>(l, ra). map (\<lambda>(l', rp). (l, ra, rp))
                         (filter (\<lambda>(l', rp). l' = l) ys)) xs)) \<subseteq> fst ` set xs"
proof (induction xs)
  case Nil
  show ?case by simp
next
  case (Cons x xs)
  obtain l ra where x: "x = (l, ra)" by (cases x)
  let ?block = "map (\<lambda>(l', rp). (l, ra, rp)) (filter (\<lambda>(l', rp). l' = l) ys)"
  let ?rest = "concat (map (\<lambda>(l, ra). map (\<lambda>(l', rp). (l, ra, rp))
                         (filter (\<lambda>(l', rp). l' = l) ys)) xs)"
  have len: "length (filter (\<lambda>(l', rp). l' = l) ys) \<le> 1"
  proof (cases "filter (\<lambda>(l', rp). l' = l) ys")
    case Nil
    then show ?thesis by simp
  next
    case c: (Cons y others)
    have "\<forall>z\<in>set (filter (\<lambda>(l', rp). l' = l) ys). (l, snd z) \<in> set ys" by auto
    moreover have "y \<in> set (filter (\<lambda>(l', rp). l' = l) ys)" unfolding c by simp
    ultimately have "(l, snd y) \<in> set ys" by blast
    from filter_key_distinct [OF assms this] show ?thesis by simp
  qed
  then have db: "distinct (map fst ?block)"
    by (cases "filter (\<lambda>(l', rp). l' = l) ys") (auto simp: length_Suc_conv)
  have sb: "fst ` set ?block \<subseteq> {l}" by auto
  from Cons.prems have dx: "distinct (map fst xs)" and nl: "l \<notin> fst ` set xs"
    by (auto simp: x)
  from Cons.IH [OF dx] have dr: "distinct (map fst ?rest)" and sr: "fst ` set ?rest \<subseteq> fst ` set xs"
    by blast+
  have disj: "fst ` set ?block \<inter> fst ` set ?rest = {}"
    using sb sr nl by blast
  have d: "distinct (map fst (?block @ ?rest))"
    using db dr disj by (rule distinct_map_fst_append)
  have xin: "l \<in> fst ` set (x # xs)" by (simp add: x)
  have sub: "fst ` set xs \<subseteq> fst ` set (x # xs)" by auto
  have i: "fst ` set (?block @ ?rest) \<subseteq> fst ` set (x # xs)"
    unfolding set_append image_Un using sb sr xin sub by blast
  have e: "concat (map (\<lambda>(l, ra). map (\<lambda>(l', rp). (l, ra, rp))
                         (filter (\<lambda>(l', rp). l' = l) ys)) (x # xs)) = ?block @ ?rest"
    by (simp add: x)
  from d i show ?case unfolding e by blast
qed

lemma distinct_join_rows:
  assumes "distinct (map fst (irows a))" "distinct (map fst (irows p))"
  shows "distinct (map fst (join_rows a p))"
  using map_fst_join_rows [OF assms(2) assms(1)] by (simp add: join_rows_def)

lemma common_records_distinct:
  assumes "distinct (map (\<lambda>r. r pivot) (rows a))" "distinct (map (\<lambda>r. r pivot) (rows p))"
  shows "distinct (map fst (irows (snd (common_records pivot a p))))"
proof -
  define a1 where "a1 = keep_isin pivot (map (\<lambda>r. r pivot) (rows p)) a"
  define p1 where "p1 = keep_isin pivot (map (\<lambda>r. r pivot) (rows a1)) p"
  have da: "distinct (map fst (irows (set_index pivot a1)))"
    using assms(1) by (simp add: set_index_def a1_def keep_isin_def comp_def distinct_map_filter)
  have dp: "distinct (map fst (irows (set_index pivot p1)))"
    using assms(2) by (simp add: set_index_def p1_def keep_isin_def comp_def distinct_map_filter)
  have "map fst (irows (snd (common_records pivot a p)))
        = map fst (join_rows (set_index pivot a1) (set_index pivot p1))"
    by (simp add: common_records_def align_inner_def Let_def a1_def p1_def comp_def case_prod_beta)
  with distinct_join_rows [OF da dp] show ?thesis by simp
qed

section \<open>The pass that updates\<close>

lemma synchronize_different_records_unfold:
  assumes "PIVOT \<in> set (columns airtable)" "PIVOT \<in> set (columns pcrs)"
    and "set COLS \<subseteq> set (removeAll PIVOT (columns airtable))"
    and "set COLS \<subseteq> set (removeAll PIVOT (columns pcrs))"
  shows "synchronize_different_records remote PIVOT COLS airtable (Frame pcrs) w =
     update_records remote COLS (fst (common_records PIVOT airtable pcrs)) (snd (common_records PIVOT airtable pcrs))
       (different_records COLS (fst (common_records PIVOT airtable pcrs)) (snd (common_records PIVOT airtable pcrs)))
       (print (Found_with_differences (length (different_records COLS (fst (common_records PIVOT airtable pcrs))
           (snd (common_records PIVOT airtable pcrs))))) (print Synchronizing_different w))"
  using assms
  by (simp add: synchronize_different_records_def getitem_def Let_def case_prod_beta common_records_columns)

lemma synchronize_different_records_raise:
  assumes "\<not> (PIVOT \<in> set (columns airtable) \<and> PIVOT \<in> set (columns pcrs)
      \<and> set COLS \<subseteq> set (removeAll PIVOT (columns airtable))
      \<and> set COLS \<subseteq> set (removeAll PIVOT (columns pcrs)))"
  shows "synchronize_different_records remote PIVOT COLS airtable (Frame pcrs) w =
     (Some KeyError, print Synchronizing_different w)"
  using assms
  by (auto simp: synchronize_different_records_def getitem_def Let_def case_prod_beta common_records_columns)

lemma cell_eq_NaN: "\<not> cell_eq NaN y" "\<not> cell_eq x NaN"
  by (simp_all add: cell_eq_def)

lemma remote_table_is_frame:
  "remote_table = DataFrame (map record_data
      [\<lparr>rec_id = Str ''rec1'', rec_fields = [(''pivot'', Str ''A1'')]\<rparr>,
       \<lparr>rec_id = Str ''rec2'', rec_fields = [(''pivot'', Str ''A2''), (''status'', Str ''open'')]\<rparr>])"
  by (simp add: remote_table_def DataFrame_def remote_row_A1_def remote_row_A2_def record_data_def)

lemma remote_table_no_status_is_frame:
  "remote_table_no_status = DataFrame (map record_data
      [\<lparr>rec_id = Str ''rec1'', rec_fields = [(''pivot'', Str ''A1'')]\<rparr>])"
  by (simp add: remote_table_no_status_def DataFrame_def remote_row_A1_def record_data_def)

text \<open>
  In tables whose pivot values are all different, every request of the pass is a
  \<open>PATCH\<close> to the identifier of a remote record, with the dict of the compared columns
  of the export record of the same pivot value; the two records differ in a compared
  column, and no compared value of the export record is missing (the encoder would
  have refused it).
\<close>

lemma update_requests_form:
  assumes "distinct (map (\<lambda>r. r PIVOT) (rows airtable))"
    and "distinct (map (\<lambda>r. r PIVOT) (rows pcrs))"
  shows "\<exists>news. sent (snd (synchronize_different_records remote PIVOT COLS airtable (Frame pcrs) w)) = sent w @ news
     \<and> (\<forall>rq\<in>set news. \<exists>ra\<in>set (rows airtable). \<exists>rp\<in>set (rows pcrs).
            ra PIVOT = rp PIVOT
          \<and> rq = Patch (ra ''airtable_record_id'') (Fields (to_dict COLS rp))
          \<and> \<not> all_eq COLS ra rp \<and> \<not> has_nan (to_dict COLS rp))"
proof (cases "PIVOT \<in> set (columns airtable) \<and> PIVOT \<in> set (columns pcrs)
      \<and> set COLS \<subseteq> set (removeAll PIVOT (columns airtable))
      \<and> set COLS \<subseteq> set (removeAll PIVOT (columns pcrs))")
  case False
  from synchronize_different_records_raise [OF this, of remote w]
  have "sent (snd (synchronize_different_records remote PIVOT COLS airtable (Frame pcrs) w)) = sent w @ []"
    by simp
  then show ?thesis by (intro exI [of _ "[]"]) simp
next
  case True
  let ?a = "fst (common_records PIVOT airtable pcrs)"
  let ?p = "snd (common_records PIVOT airtable pcrs)"
  obtain J where ja: "irows ?a = map (\<lambda>(l, ra, rp). (l, ra)) J"
    and jp: "irows ?p = map (\<lambda>(l, ra, rp). (l, rp)) J"
    and jm: "\<And>l ra rp. (l, ra, rp) \<in> set J \<longleftrightarrow>
           ra \<in> set (rows airtable) \<and> rp \<in> set (rows pcrs) \<and> ra PIVOT = l \<and> rp PIVOT = l"
    using common_records_rows [of PIVOT airtable pcrs] by blast
  have dl: "distinct (map fst (irows ?p))"
    using assms by (rule common_records_distinct)
  let ?w2 = "print (Found_with_differences (length (different_records COLS ?a ?p))) (print Synchronizing_different w)"
  have u: "synchronize_different_records remote PIVOT COLS airtable (Frame pcrs) w =
      update_records remote COLS ?a ?p (different_records COLS ?a ?p) ?w2"
    using True by (simp add: synchronize_different_records_unfold)
  from update_records_sent_form [of remote COLS ?a ?p "different_records COLS ?a ?p" ?w2]
  obtain news where n: "sent (snd (update_records remote COLS ?a ?p (different_records COLS ?a ?p) ?w2)) = sent ?w2 @ news"
    and f: "\<forall>rq\<in>set news. \<exists>ir\<in>set (different_records COLS ?a ?p). \<exists>found. loc ?p (fst ir) = Inr found
            \<and> json_dumps (updated_fields COLS (fst ir) found) = None
            \<and> rq = Patch (snd ir ''airtable_record_id'') (updated_fields COLS (fst ir) found)"
    by blast
  have "\<exists>ra\<in>set (rows airtable). \<exists>rp\<in>set (rows pcrs).
            ra PIVOT = rp PIVOT
          \<and> rq = Patch (ra ''airtable_record_id'') (Fields (to_dict COLS rp))
          \<and> \<not> all_eq COLS ra rp \<and> \<not> has_nan (to_dict COLS rp)"
    if "rq \<in> set news" for rq
  proof -
    from f that obtain ir found where ir: "ir \<in> set (different_records COLS ?a ?p)"
      and l: "loc ?p (fst ir) = Inr found"
      and j: "json_dumps (updated_fields COLS (fst ir) found) = None"
      and rq: "rq = Patch (snd ir ''airtable_record_id'') (updated_fields COLS (fst ir) found)"
      by blast
    from ir obtain ra rp where in_J: "(fst ir, ra, rp) \<in> set J" and ra: "snd ir = ra"
      and ne: "\<not> all_eq COLS ra rp"
      unfolding different_records_of_pairs [OF ja jp] by auto
    from in_J have "(fst ir, rp) \<in> set (irows ?p)" unfolding jp by force
    from loc_distinct [OF dl this] l have found: "found = One_row rp" by simp
    from in_J jm have a: "ra \<in> set (rows airtable)" "ra PIVOT = fst ir"
      and p: "rp \<in> set (rows pcrs)" "rp PIVOT = fst ir" by blast+
    have nn: "\<not> has_nan (to_dict COLS rp)"
      using j by (simp add: found updated_fields_def split: if_splits)
    have "ra PIVOT = rp PIVOT \<and> rq = Patch (ra ''airtable_record_id'') (Fields (to_dict COLS rp))
          \<and> \<not> all_eq COLS ra rp \<and> \<not> has_nan (to_dict COLS rp)"
      using a p rq ra ne nn by (simp add: found updated_fields_def)
    with a(1) p(1) show ?thesis by blast
  qed
  with n u show ?thesis by (intro exI [of _ news]) simp
qed

text \<open>
  C3. In tables whose pivot values are all different, every update request that
  \<open>synchronize_different_records\<close> sends is a \<open>PATCH\<close> to the identifier of a remote
  record whose fields are exactly the compared fields, each with the value that the
  export's record of the same pivot value has for it: no field outside
  \<open>COLUMNS_TO_CHECK\<close> is ever in the request.
\<close>

theorem update_requests_carry_only_compared_fields:
  assumes "distinct (map (\<lambda>r. r PIVOT) (rows airtable))"
    and "distinct (map (\<lambda>r. r PIVOT) (rows pcrs))"
  shows "\<exists>news. sent (snd (synchronize_different_records remote PIVOT COLS airtable (Frame pcrs) w)) = sent w @ news
     \<and> (\<forall>rq\<in>set news. \<exists>ra\<in>set (rows airtable). \<exists>rp\<in>set (rows pcrs). \<exists>d.
            ra PIVOT = rp PIVOT \<and> rq = Patch (ra ''airtable_record_id'') (Fields d)
          \<and> keys d = set COLS \<and> (\<forall>c\<in>set COLS. dict_get d c = Some (rp c)))"
proof -
  from update_requests_form [OF assms, of remote COLS w]
  obtain news where n: "sent (snd (synchronize_different_records remote PIVOT COLS airtable (Frame pcrs) w)) = sent w @ news"
    and f: "\<forall>rq\<in>set news. \<exists>ra\<in>set (rows airtable). \<exists>rp\<in>set (rows pcrs).
            ra PIVOT = rp PIVOT
          \<and> rq = Patch (ra ''airtable_record_id'') (Fields (to_dict COLS rp))
          \<and> \<not> all_eq COLS ra rp \<and> \<not> has_nan (to_dict COLS rp)"
    by blast
  have "\<exists>ra\<in>set (rows airtable). \<exists>rp\<in>set (rows pcrs). \<exists>d.
            ra PIVOT = rp PIVOT \<and> rq = Patch (ra ''airtable_record_id'') (Fields d)
          \<and> keys d = set COLS \<and> (\<forall>c\<in>set COLS. dict_get d c = Some (rp c))"
    if "rq \<in> set news" for rq
  proof -
    from f that obtain ra rp where a: "ra \<in> set (rows airtable)" and p: "rp \<in> set (rows pcrs)"
      and m: "ra PIVOT = rp PIVOT"
      and rq: "rq = Patch (ra ''airtable_record_id'') (Fields (to_dict COLS rp))"
      by blast
    have "ra PIVOT = rp PIVOT \<and> rq = Patch (ra ''airtable_record_id'') (Fields (to_dict COLS rp))
          \<and> keys (to_dict COLS rp) = set COLS
          \<and> (\<forall>c\<in>set COLS. dict_get (to_dict COLS rp) c = Some (rp c))"
      using m rq by (simp add: keys_to_dict dict_get_to_dict)
    with a p show ?thesis by blast
  qed
  then have "\<forall>rq\<in>set news. \<exists>ra\<in>set (rows airtable). \<exists>rp\<in>set (rows pcrs). \<exists>d.
            ra PIVOT = rp PIVOT \<and> rq = Patch (ra ''airtable_record_id'') (Fields d)
          \<and> keys d = set COLS \<and> (\<forall>c\<in>set COLS. dict_get d c = Some (rp c))" ..
  with n show ?thesis by (intro exI [of _ news] conjI)
qed

text \<open>
  The scenario of the specification: the remote record \<open>rec1\<close> of \<open>A1\<close> has no
  status, the export has \<open>closed\<close>; one update goes to \<open>rec1\<close>, with the status alone.
\<close>

theorem update_requests_carry_only_compared_fields_witness:
  "distinct (map (\<lambda>r. r ''pivot'') (rows remote_table))
   \<and> distinct (map (\<lambda>r. r ''pivot'') (rows export_table_changed))
   \<and> synchronize_different_records accepts_all ''pivot'' [''status''] remote_table (Frame export_table_changed) start
     = (None, \<lparr>sent = [Patch (Str ''rec1'') (Fields [(''status'', Str ''closed'')])],
               out = [Synchronizing_different, Found_with_differences 1,
                      Successfully_updated (Str ''rec1'')]\<rparr>)
   \<and> (\<exists>news. sent (snd (synchronize_different_records accepts_all ''pivot'' [''status''] remote_table (Frame export_table_changed) start)) = sent start @ news
     \<and> (\<forall>rq\<in>set news. \<exists>ra\<in>set (rows remote_table). \<exists>rp\<in>set (rows export_table_changed). \<exists>d.
            ra ''pivot'' = rp ''pivot'' \<and> rq = Patch (ra ''airtable_record_id'') (Fields d)
          \<and> keys d = set [''status''] \<and> (\<forall>c\<in>set [''status'']. dict_get d c = Some (rp c))))"
proof -
  have d1: "distinct (map (\<lambda>r. r ''pivot'') (rows remote_table))"
    by (simp add: remote_table_def remote_row_A1_def remote_row_A2_def row_of_dict_def record_data_def)
  have d2: "distinct (map (\<lambda>r. r ''pivot'') (rows export_table_changed))"
    by (simp add: export_table_changed_def export_row_A1_closed_def export_row_A2_def row_of_dict_def)
  have e: "synchronize_different_records accepts_all ''pivot'' [''status''] remote_table (Frame export_table_changed) start
     = (None, \<lparr>sent = [Patch (Str ''rec1'') (Fields [(''status'', Str ''closed'')])],
               out = [Synchronizing_different, Found_with_differences 1,
                      Successfully_updated (Str ''rec1'')]\<rparr>)"
    by code_simp
  from update_requests_carry_only_compared_fields [OF d1 d2, of accepts_all "[''status'']" start]
  show ?thesis using d1 d2 e by (intro conjI)
qed

text \<open>
  C1. In tables whose pivot values are all different, every update request of
  \<open>synchronize_different_records\<close> is for a matched pair whose values differ in some
  compared field. So when every matched pair has the same compared values the pass
  sends no request; and, the record identifiers being all different too, no request
  goes to the record of a pair with the same compared values, whatever the other
  pairs are.
\<close>

theorem no_update_for_identical_values:
  assumes "distinct (map (\<lambda>r. r PIVOT) (rows airtable))"
    and "distinct (map (\<lambda>r. r PIVOT) (rows pcrs))"
  shows "\<exists>news. sent (snd (synchronize_different_records remote PIVOT COLS airtable (Frame pcrs) w)) = sent w @ news
     \<and> (\<forall>rq\<in>set news. \<exists>ra\<in>set (rows airtable). \<exists>rp\<in>set (rows pcrs).
            ra PIVOT = rp PIVOT
          \<and> rq = Patch (ra ''airtable_record_id'') (Fields (to_dict COLS rp))
          \<and> (\<exists>c\<in>set COLS. ra c \<noteq> rp c))
     \<and> ((\<forall>ra\<in>set (rows airtable). \<forall>rp\<in>set (rows pcrs).
            ra PIVOT = rp PIVOT \<longrightarrow> (\<forall>c\<in>set COLS. ra c = rp c)) \<longrightarrow> news = [])
     \<and> (distinct (map (\<lambda>r. r ''airtable_record_id'') (rows airtable)) \<longrightarrow>
          (\<forall>ra\<in>set (rows airtable). \<forall>rp\<in>set (rows pcrs).
             ra PIVOT = rp PIVOT \<and> (\<forall>c\<in>set COLS. ra c = rp c) \<longrightarrow>
             (\<forall>f. Patch (ra ''airtable_record_id'') f \<notin> set news)))"
proof -
  from update_requests_form [OF assms, of remote COLS w]
  obtain news where n: "sent (snd (synchronize_different_records remote PIVOT COLS airtable (Frame pcrs) w)) = sent w @ news"
    and f: "\<forall>rq\<in>set news. \<exists>ra\<in>set (rows airtable). \<exists>rp\<in>set (rows pcrs).
            ra PIVOT = rp PIVOT
          \<and> rq = Patch (ra ''airtable_record_id'') (Fields (to_dict COLS rp))
          \<and> \<not> all_eq COLS ra rp \<and> \<not> has_nan (to_dict COLS rp)"
    by blast
  have g: "\<exists>ra\<in>set (rows airtable). \<exists>rp\<in>set (rows pcrs).
            ra PIVOT = rp PIVOT
          \<and> rq = Patch (ra ''airtable_record_id'') (Fields (to_dict COLS rp))
          \<and> (\<exists>c\<in>set COLS. ra c \<noteq> rp c)"
    if "rq \<in> set news" for rq
  proof -
    from f that obtain ra rp where a: "ra \<in> set (rows airtable)" and p: "rp \<in> set (rows pcrs)"
      and m: "ra PIVOT = rp PIVOT"
      and rq: "rq = Patch (ra ''airtable_record_id'') (Fields (to_dict COLS rp))"
      and ne: "\<not> all_eq COLS ra rp" and nn: "\<not> has_nan (to_dict COLS rp)"
      by blast
    from ne obtain c where c: "c \<in> set COLS" and nc: "\<not> cell_eq (ra c) (rp c)"
      by (auto simp: all_eq_def list_all_iff)
    from nn c have "rp c \<noteq> NaN" by (auto simp: has_nan_to_dict)
    with nc have "ra c \<noteq> rp c" by (auto simp: cell_eq_def)
    with c have "\<exists>c\<in>set COLS. ra c \<noteq> rp c" ..
    with a p m rq show ?thesis by blast
  qed
  have h: "news = []"
    if "\<forall>ra\<in>set (rows airtable). \<forall>rp\<in>set (rows pcrs).
            ra PIVOT = rp PIVOT \<longrightarrow> (\<forall>c\<in>set COLS. ra c = rp c)"
  proof (cases news)
    case Nil
    then show ?thesis .
  next
    case (Cons rq others)
    then have "rq \<in> set news" by simp
    from g [OF this] that show ?thesis by blast
  qed
  have k: "Patch (ra ''airtable_record_id'') f \<notin> set news"
    if d: "distinct (map (\<lambda>r. r ''airtable_record_id'') (rows airtable))"
      and a: "ra \<in> set (rows airtable)" and p: "rp \<in> set (rows pcrs)"
      and m: "ra PIVOT = rp PIVOT" and e: "\<forall>c\<in>set COLS. ra c = rp c" for ra rp f
  proof
    assume "Patch (ra ''airtable_record_id'') f \<in> set news"
    from g [OF this] obtain ra' rp' where a': "ra' \<in> set (rows airtable)" and p': "rp' \<in> set (rows pcrs)"
      and m': "ra' PIVOT = rp' PIVOT"
      and i: "ra ''airtable_record_id'' = ra' ''airtable_record_id''"
      and ne: "\<exists>c\<in>set COLS. ra' c \<noteq> rp' c"
      by auto
    have "inj_on (\<lambda>r. r ''airtable_record_id'') (set (rows airtable))"
      using d by (simp add: distinct_map)
    with a a' i have ra: "ra' = ra" by (auto dest: inj_onD)
    have "inj_on (\<lambda>r. r PIVOT) (set (rows pcrs))"
      using assms(2) by (simp add: distinct_map)
    moreover have "rp' PIVOT = rp PIVOT" using m m' ra by simp
    ultimately have "rp' = rp" using p p' by (auto dest: inj_onD)
    with ne ra e show False by blast
  qed
  show ?thesis
  proof (intro exI [of _ news] conjI impI ballI allI)
    show "sent (snd (synchronize_different_records remote PIVOT COLS airtable (Frame pcrs) w)) = sent w @ news"
      by (rule n)
  next
    fix rq assume "rq \<in> set news"
    then show "\<exists>ra\<in>set (rows airtable). \<exists>rp\<in>set (rows pcrs).
            ra PIVOT = rp PIVOT
          \<and> rq = Patch (ra ''airtable_record_id'') (Fields (to_dict COLS rp))
          \<and> (\<exists>c\<in>set COLS. ra c \<noteq> rp c)"
      by (rule g)
  next
    assume "\<forall>ra\<in>set (rows airtable). \<forall>rp\<in>set (rows pcrs).
            ra PIVOT = rp PIVOT \<longrightarrow> (\<forall>c\<in>set COLS. ra c = rp c)"
    then show "news = []" by (rule h)
  next
    fix ra rp f
    assume "distinct (map (\<lambda>r. r ''airtable_record_id'') (rows airtable))"
      and "ra \<in> set (rows airtable)" and "rp \<in> set (rows pcrs)"
      and "ra PIVOT = rp PIVOT \<and> (\<forall>c\<in>set COLS. ra c = rp c)"
    then show "Patch (ra ''airtable_record_id'') f \<notin> set news"
      using k [of ra rp f] by blast
  qed
qed

text \<open>
  The two records of \<open>remote_table\<close> and \<open>export_table\<close> have, pair by pair, the same
  pivot value and the same status (for \<open>A1\<close> none on either side): no request is sent.
\<close>

theorem no_update_for_identical_values_witness:
  "distinct (map (\<lambda>r. r ''pivot'') (rows remote_table))
   \<and> distinct (map (\<lambda>r. r ''pivot'') (rows export_table))
   \<and> remote_row_A1 ''pivot'' = export_row_A1 ''pivot'' \<and> remote_row_A1 ''status'' = export_row_A1 ''status''
   \<and> remote_row_A2 ''pivot'' = export_row_A2 ''pivot'' \<and> remote_row_A2 ''status'' = export_row_A2 ''status''
   \<and> sent (snd (synchronize_different_records accepts_all ''pivot'' [''status''] remote_table (Frame export_table) start)) = []"
proof -
  have d1: "distinct (map (\<lambda>r. r ''pivot'') (rows remote_table))"
    by (simp add: remote_table_def remote_row_A1_def remote_row_A2_def row_of_dict_def record_data_def)
  have d2: "distinct (map (\<lambda>r. r ''pivot'') (rows export_table))"
    by (simp add: export_table_def export_row_A1_def export_row_A2_def row_of_dict_def)
  have v: "remote_row_A1 ''pivot'' = export_row_A1 ''pivot'' \<and> remote_row_A1 ''status'' = export_row_A1 ''status''
   \<and> remote_row_A2 ''pivot'' = export_row_A2 ''pivot'' \<and> remote_row_A2 ''status'' = export_row_A2 ''status''"
    by (simp add: remote_row_A1_def remote_row_A2_def export_row_A1_def export_row_A2_def
        row_of_dict_def record_data_def)
  have same: "\<forall>ra\<in>set (rows remote_table). \<forall>rp\<in>set (rows export_table).
            ra ''pivot'' = rp ''pivot'' \<longrightarrow> (\<forall>c\<in>set [''status'']. ra c = rp c)"
    by (simp add: remote_table_def export_table_def remote_row_A1_def remote_row_A2_def
        export_row_A1_def export_row_A2_def row_of_dict_def record_data_def)
  have z: "sent (snd (synchronize_different_records accepts_all ''pivot'' [''status''] remote_table (Frame export_table) start)) = []"
    using no_update_for_identical_values [OF d1 d2, of accepts_all "[''status'']" start] same
    apply (elim exE conjE)
    apply (drule (1) mp)
    apply (simp add: start_def)
    done
  from v have v1: "remote_row_A1 ''pivot'' = export_row_A1 ''pivot''"
    and v2: "remote_row_A1 ''status'' = export_row_A1 ''status''"
    and v3: "remote_row_A2 ''pivot'' = export_row_A2 ''pivot''"
    and v4: "remote_row_A2 ''status'' = export_row_A2 ''status''"
    by blast+
  show ?thesis
    by (intro conjI) (rule d1 d2 v1 v2 v3 v4 z)+
qed




text \<open>
  A refused update does not end the pass: the requests sent and the exception raised
  are the same whatever the remote store answers, and every request answered with
  another status than 200 has its line \<open>Error updating record\<close> in the output.
\<close>

lemma refused_update_is_logged_and_skipped:
  "(fst (synchronize_different_records r1 PIVOT COLS airtable (Frame pcrs) w)
      = fst (synchronize_different_records r2 PIVOT COLS airtable (Frame pcrs) w)
    \<and> sent (snd (synchronize_different_records r1 PIVOT COLS airtable (Frame pcrs) w))
      = sent (snd (synchronize_different_records r2 PIVOT COLS airtable (Frame pcrs) w)))
   \<and> (\<exists>news logs.
         sent (snd (synchronize_different_records r1 PIVOT COLS airtable (Frame pcrs) w)) = sent w @ news
       \<and> out (snd (synchronize_different_records r1 PIVOT COLS airtable (Frame pcrs) w)) = out w @ logs
       \<and> (\<forall>i<length news. code (r1 (sent w @ take i news) (news ! i)) \<noteq> 200 \<longrightarrow>
             (\<exists>rid f. news ! i = Patch rid f
                \<and> Error_updating rid (code (r1 (sent w @ take i news) (news ! i))) \<in> set logs)))"
proof (cases "PIVOT \<in> set (columns airtable) \<and> PIVOT \<in> set (columns pcrs)
      \<and> set COLS \<subseteq> set (removeAll PIVOT (columns airtable))
      \<and> set COLS \<subseteq> set (removeAll PIVOT (columns pcrs))")
  case False
  have "sent (snd (synchronize_different_records r1 PIVOT COLS airtable (Frame pcrs) w)) = sent w @ []"
    and "out (snd (synchronize_different_records r1 PIVOT COLS airtable (Frame pcrs) w)) = out w @ [Synchronizing_different]"
    by (simp_all add: synchronize_different_records_raise [OF False])
  then have "\<exists>news logs.
         sent (snd (synchronize_different_records r1 PIVOT COLS airtable (Frame pcrs) w)) = sent w @ news
       \<and> out (snd (synchronize_different_records r1 PIVOT COLS airtable (Frame pcrs) w)) = out w @ logs
       \<and> (\<forall>i<length news. code (r1 (sent w @ take i news) (news ! i)) \<noteq> 200 \<longrightarrow>
             (\<exists>rid f. news ! i = Patch rid f
                \<and> Error_updating rid (code (r1 (sent w @ take i news) (news ! i))) \<in> set logs))"
    by (intro exI [of _ "[]"] exI [of _ "[Synchronizing_different]"]) simp
  then show ?thesis
    by (simp add: synchronize_different_records_raise [OF False])
next
  case True
  let ?a = "fst (common_records PIVOT airtable pcrs)"
  let ?p = "snd (common_records PIVOT airtable pcrs)"
  let ?d = "different_records COLS ?a ?p"
  let ?w2 = "print (Found_with_differences (length ?d)) (print Synchronizing_different w)"
  have u: "synchronize_different_records remote PIVOT COLS airtable (Frame pcrs) w =
      update_records remote COLS ?a ?p ?d ?w2" for remote
    using True by (simp add: synchronize_different_records_unfold)
  from update_records_logs [of r1 COLS ?a ?p ?d ?w2] obtain news logs where
    s: "sent (snd (update_records r1 COLS ?a ?p ?d ?w2)) = sent ?w2 @ news"
    and l: "out (snd (update_records r1 COLS ?a ?p ?d ?w2)) = out ?w2 @ logs"
    and g: "\<forall>i<length news. code (r1 (sent ?w2 @ take i news) (news ! i)) \<noteq> 200 \<longrightarrow>
           (\<exists>rid f. news ! i = Patch rid f
              \<and> Error_updating rid (code (r1 (sent ?w2 @ take i news) (news ! i))) \<in> set logs)"
    by blast
  have "\<exists>news logs.
         sent (snd (synchronize_different_records r1 PIVOT COLS airtable (Frame pcrs) w)) = sent w @ news
       \<and> out (snd (synchronize_different_records r1 PIVOT COLS airtable (Frame pcrs) w)) = out w @ logs
       \<and> (\<forall>i<length news. code (r1 (sent w @ take i news) (news ! i)) \<noteq> 200 \<longrightarrow>
             (\<exists>rid f. news ! i = Patch rid f
                \<and> Error_updating rid (code (r1 (sent w @ take i news) (news ! i))) \<in> set logs))"
  proof (intro exI [of _ news] exI [of _ "[Synchronizing_different, Found_with_differences (length ?d)] @ logs"] conjI)
    show "sent (snd (synchronize_different_records r1 PIVOT COLS airtable (Frame pcrs) w)) = sent w @ news"
      unfolding u s by simp
    show "out (snd (synchronize_different_records r1 PIVOT COLS airtable (Frame pcrs) w))
        = out w @ [Synchronizing_different, Found_with_differences (length ?d)] @ logs"
      unfolding u l by simp
    show "\<forall>i<length news. code (r1 (sent w @ take i news) (news ! i)) \<noteq> 200 \<longrightarrow>
             (\<exists>rid f. news ! i = Patch rid f
                \<and> Error_updating rid (code (r1 (sent w @ take i news) (news ! i)))
                     \<in> set ([Synchronizing_different, Found_with_differences (length ?d)] @ logs))"
      using g by auto
  qed
  moreover have "fst (synchronize_different_records r1 PIVOT COLS airtable (Frame pcrs) w)
      = fst (synchronize_different_records r2 PIVOT COLS airtable (Frame pcrs) w)
    \<and> sent (snd (synchronize_different_records r1 PIVOT COLS airtable (Frame pcrs) w))
      = sent (snd (synchronize_different_records r2 PIVOT COLS airtable (Frame pcrs) w))"
    unfolding u by (rule update_records_remote) simp
  ultimately show ?thesis by (rule conjI [rotated])
qed

section \<open>The pass that creates\<close>

lemma get_airtable_data_empty_page:
  "get_airtable_data empty_page start = Some (DataFrame [], \<lparr>sent = [], out = [Found_in_Airtable 0]\<rparr>)"
  by (simp add: get_airtable_data_def fetch_loop.simps empty_page_def truthy_def get_records_def
      start_def print_def)

text \<open>
  C2. The remote table is empty: the frame built from no record has no column. The
  export has two records the remote table does not have, \<open>B2\<close> and \<open>B3\<close>. The pass
  prints its first line and ends with \<open>KeyError\<close> at \<open>airtable_df[PIVOT_COLUMN]\<close>: no
  create request is sent.
\<close>

theorem no_create_for_empty_remote_table:
  "columns (DataFrame []) = [] \<and> length (rows (DataFrame [])) = 0
   \<and> map (\<lambda>r. r ''pivot'') (rows export_table_new) = [Str ''A2'', Str ''B2'', Str ''B3'']
   \<and> synchronize_missing_records accepts_all ''pivot'' [''status''] (DataFrame [])
        (Frame export_table_new) start
     = (Some KeyError, \<lparr>sent = [], out = [Synchronizing_missing]\<rparr>)"
  by code_simp

text \<open>
  In a whole run the empty remote table ends the first pass already, at
  \<open>airtable_df[PIVOT_COLUMN]\<close>: the pass that creates is not reached.
\<close>

lemma main_with_empty_remote_table:
  "main accepts_all ''pivot'' [''status''] empty_page \<lparr>status_code = 200, read_csv = export_table_new\<rparr>
     = Some (Some KeyError,
             \<lparr>sent = [],
              out = [Step_1, Found_in_Airtable 0, Blank, Step_2, Found_in_export 3, Blank, Step_3,
                     Synchronizing_different]\<rparr>)"
  by code_simp

text \<open>
  Two more records that are never created: one whose compared value is missing (the
  encoder refuses the missing value), and one of an export whose cells are all
  integers (the pivot value put into the data is a \<open>numpy.int64\<close>, which the encoder
  refuses).
\<close>

lemma no_create_for_missing_value:
  "synchronize_missing_records accepts_all ''pivot'' [''status''] remote_table (Frame export_table_gap) start
     = (Some InvalidJSONError,
        \<lparr>sent = [],
         out = [Synchronizing_missing, Found_missing_in_Airtable 1,
                Creating_new_record [(''status'', NaN), (''pivot'', Str ''B4'')]]\<rparr>)"
  by code_simp

lemma no_create_for_integer_export:
  "synchronize_missing_records accepts_all ''pivot'' [''status''] remote_table (Frame export_table_integers) start
     = (Some TypeError,
        \<lparr>sent = [],
         out = [Synchronizing_missing, Found_missing_in_Airtable 1,
                Creating_new_record [(''status'', Num 1), (''pivot'', Num 7)]]\<rparr>)"
  by code_simp

text \<open>
  C7. The export has two records the remote table does not have, \<open>B2\<close> and \<open>B3\<close>.
  When the remote store accepts every request, both are created. When it answers the
  first request with status 502 and a body that is not JSON, the pass prints the error
  line, \<open>print(response.json())\<close> raises \<open>JSONDecodeError\<close>, and the pass ends: no
  request is sent for \<open>B3\<close>.
\<close>

theorem refused_create_ends_the_batch:
  "map (\<lambda>r. r ''pivot'') (rows export_table_new) = [Str ''A2'', Str ''B2'', Str ''B3'']
   \<and> synchronize_missing_records accepts_all ''pivot'' [''status''] remote_table (Frame export_table_new) start
     = (None, \<lparr>sent = [Post [(''status'', Str ''open''), (''pivot'', Str ''B2'')],
                       Post [(''status'', Str ''closed''), (''pivot'', Str ''B3'')]],
               out = [Synchronizing_missing, Found_missing_in_Airtable 2,
                      Creating_new_record [(''status'', Str ''open''), (''pivot'', Str ''B2'')],
                      Successfully_created,
                      Creating_new_record [(''status'', Str ''closed''), (''pivot'', Str ''B3'')],
                      Successfully_created]\<rparr>)
   \<and> synchronize_missing_records refuses_first ''pivot'' [''status''] remote_table (Frame export_table_new) start
     = (Some JSONDecodeError,
        \<lparr>sent = [Post [(''status'', Str ''open''), (''pivot'', Str ''B2'')]],
         out = [Synchronizing_missing, Found_missing_in_Airtable 2,
                Creating_new_record [(''status'', Str ''open''), (''pivot'', Str ''B2'')],
                Error_creating 502]\<rparr>)"
  by code_simp

section \<open>The pass that reports\<close>

text \<open>
  The pass sends no write request.
\<close>

lemma synchronize_deleted_records_no_write:
  "sent (snd (synchronize_deleted_records PIVOT airtable pcrs_obj w)) = sent w"
  by (simp add: synchronize_deleted_records_def Let_def split: sum.splits pyobj.splits)

text \<open>
  C4. For a remote table of six records and an export without any, the pass sends
  nothing and prints the number six and the first five records: the pivot value
  \<open>C6\<close>, which only the remote table has, is not in what is printed.
\<close>

theorem deleted_report_shows_five_rows_only:
  "map (\<lambda>r. r ''pivot'') (rows six_remote_records)
     = [Str ''C1'', Str ''C2'', Str ''C3'', Str ''C4'', Str ''C5'', Str ''C6'']
   \<and> synchronize_deleted_records ''pivot'' six_remote_records (Frame no_records) start
     = (None, \<lparr>sent = [],
               out = [Synchronizing_deleted, Found_missing_in_PCRS 6,
                      Printed_head [''pivot'', ''airtable_record_id'']
                        [[Str ''C1'', Str ''rec1''], [Str ''C2'', Str ''rec2''], [Str ''C3'', Str ''rec3''],
                         [Str ''C4'', Str ''rec4''], [Str ''C5'', Str ''rec5'']]]\<rparr>)"
  by code_simp

section \<open>A failed download of the export\<close>

text \<open>
  Whatever the tables, a run whose download of the export fails ends with an
  exception raised in the first pass, right after the first line of that pass.
\<close>

lemma main_after_failed_export:
  assumes "status_code csv \<noteq> 200" "fetch_loop pages 0 [] = Some all_records"
  shows "\<exists>e. main remote PIVOT COLS pages csv =
           Some (Some e, \<lparr>sent = [],
                          out = [Step_1, Found_in_Airtable (length all_records), Blank, Step_2,
                                 Blank, Step_3, Synchronizing_different]\<rparr>)"
proof -
  let ?df = "DataFrame (map record_data all_records)"
  let ?w = "\<lparr>sent = [], out = [Step_1, Found_in_Airtable (length all_records), Blank, Step_2, Blank, Step_3]\<rparr>"
  have d: "synchronize_different_records remote PIVOT COLS ?df (Error_str (status_code csv)) ?w =
      (Some (if PIVOT \<in> set (columns ?df) then TypeError else KeyError), print Synchronizing_different ?w)"
    by (simp add: synchronize_different_records_def getitem_def Let_def)
  have "main remote PIVOT COLS pages csv =
      Some (Some (if PIVOT \<in> set (columns ?df) then TypeError else KeyError), print Synchronizing_different ?w)"
    using assms by (simp add: main_def get_airtable_data_def get_csv_export_data_def print_def d [unfolded print_def])
  then show ?thesis by (simp add: print_def)
qed

text \<open>
  C5. When the download of the export answers 404, the main process still calls
  \<open>synchronize_different_records\<close>, with the error string in place of the table:
  the pass prints its first line and raises \<open>TypeError\<close>. No write request is sent,
  and the other two passes are not reached.
\<close>

theorem failed_export_fetch_reaches_first_pass:
  "main accepts_all ''pivot'' [''status''] three_pages \<lparr>status_code = 404, read_csv = no_records\<rparr>
     = Some (Some TypeError,
             \<lparr>sent = [],
              out = [Step_1, Found_in_Airtable 3, Blank, Step_2, Blank, Step_3,
                     Synchronizing_different]\<rparr>)"
  by code_simp

end
